theory Spec2Isabelle
  imports Complex_Main
begin

section \<open>Values of the manifest: JSON documents as Python objects\<close>

text \<open>
  \<^verbatim>\<open>json.load\<close> produces, and \<^verbatim>\<open>json.dump\<close> consumes, Python objects built from
  \<^verbatim>\<open>None\<close>, booleans, integers, floats, strings, lists and dictionaries with string
  keys. A dictionary keeps its insertion order, so it is an association list. Floats
  are idealised as real numbers: rounding, infinities and NaN are outside the model.
\<close>

datatype json =
    JNull
  | JBool bool
  | JInt int
  | JFloat real
  | JStr string
  | JList "json list"
  | JDict "(string \<times> json) list"

text \<open>The exceptions that the modelled code paths can raise.\<close>

datatype error =
    JSONDecodeError
  | TypeError
  | KeyError
  | AttributeError
  | IndexError
  | FileNotFoundError
  | ExportError

text \<open>
  \<^verbatim>\<open>for item in obj\<close>: a list yields its elements, a dictionary its keys, a string its
  characters; nothing else is iterable.
\<close>

fun py_iter :: "json \<Rightarrow> error + json list" where
  "py_iter (JList xs) = Inr xs"
| "py_iter (JDict kvs) = Inr (map (\<lambda>kv. JStr (fst kv)) kvs)"
| "py_iter (JStr s) = Inr (map (\<lambda>c. JStr [c]) s)"
| "py_iter JNull = Inl TypeError"
| "py_iter (JBool b) = Inl TypeError"
| "py_iter (JInt n) = Inl TypeError"
| "py_iter (JFloat r) = Inl TypeError"

text \<open>
  \<^verbatim>\<open>item[key]\<close> with a string key: a dictionary looks the key up (\<^verbatim>\<open>KeyError\<close> when
  absent); lists and strings want integer indices and the other objects are not
  subscriptable, both a \<^verbatim>\<open>TypeError\<close>.
\<close>

fun py_getitem :: "json \<Rightarrow> string \<Rightarrow> error + json" where
  "py_getitem (JDict kvs) k = (case map_of kvs k of None \<Rightarrow> Inl KeyError | Some v \<Rightarrow> Inr v)"
| "py_getitem JNull k = Inl TypeError"
| "py_getitem (JBool b) k = Inl TypeError"
| "py_getitem (JInt n) k = Inl TypeError"
| "py_getitem (JFloat r) k = Inl TypeError"
| "py_getitem (JStr s) k = Inl TypeError"
| "py_getitem (JList xs) k = Inl TypeError"

text \<open>Lists and dictionaries are unhashable and cannot be members of a set.\<close>

fun hashable :: "json \<Rightarrow> bool" where
  "hashable (JList xs) = False"
| "hashable (JDict kvs) = False"
| "hashable JNull = True"
| "hashable (JBool b) = True"
| "hashable (JInt n) = True"
| "hashable (JFloat r) = True"
| "hashable (JStr s) = True"

text \<open>
  The set comprehension \<^verbatim>\<open>{item[key] for item in data}\<close>, kept as the list of its
  elements in iteration order. It raises at the first item that cannot be subscripted,
  lacks the key or holds an unhashable value.
\<close>

fun collect_key :: "string \<Rightarrow> json list \<Rightarrow> error + json list" where
  "collect_key k [] = Inr []"
| "collect_key k (item # items) =
     (case py_getitem item k of
        Inl e \<Rightarrow> Inl e
      | Inr v \<Rightarrow>
          if hashable v then
            (case collect_key k items of Inl e \<Rightarrow> Inl e | Inr vs \<Rightarrow> Inr (v # vs))
          else Inl TypeError)"

definition key_set :: "string \<Rightarrow> json \<Rightarrow> error + json list" where
  "key_set k data = (case py_iter data of Inl e \<Rightarrow> Inl e | Inr items \<Rightarrow> collect_key k items)"

text \<open>
  The integer an object compares equal to, if any: Python has \<^verbatim>\<open>True == 1\<close>,
  \<^verbatim>\<open>False == 0\<close> and \<^verbatim>\<open>2.0 == 2\<close>, and an integer is never equal to \<^verbatim>\<open>None\<close> or to a
  string. \<^verbatim>\<open>new_id in used_ids\<close> holds when some element of the set equals \<^verbatim>\<open>new_id\<close>.
\<close>

fun as_int :: "json \<Rightarrow> int option" where
  "as_int (JInt n) = Some n"
| "as_int (JBool b) = Some (if b then 1 else 0)"
| "as_int (JFloat r) = (if r = of_int \<lfloor>r\<rfloor> then Some \<lfloor>r\<rfloor> else None)"
| "as_int JNull = None"
| "as_int (JStr s) = None"
| "as_int (JList xs) = None"
| "as_int (JDict kvs) = None"

definition int_in :: "int \<Rightarrow> json list \<Rightarrow> bool" where
  "int_in n used = (Some n \<in> set (map as_int used))"

section \<open>Manifest store\<close>

subsection \<open>\<^verbatim>\<open>find_next_available_id\<close>\<close>

text \<open>
  \<^verbatim>\<open>
  new_id = 0
  while new_id in used_ids:
      new_id += 1
  return new_id
  \<close>
  The loop ends because every round leaves one element of \<^verbatim>\<open>used_ids\<close> fewer at or
  above \<^verbatim>\<open>new_id\<close>.
\<close>

definition at_or_above :: "int \<Rightarrow> json \<Rightarrow> bool" where
  "at_or_above n v = (case as_int v of None \<Rightarrow> False | Some k \<Rightarrow> n \<le> k)"

function first_free :: "json list \<Rightarrow> int \<Rightarrow> int" where
  "first_free used new_id = (if int_in new_id used then first_free used (new_id + 1) else new_id)"
  by pat_completeness auto
termination
proof (relation "measure (\<lambda>(used, n). length (filter (at_or_above n) used))")
  show "wf (measure (\<lambda>(used, n). length (filter (at_or_above n) used)))"
    by simp
next
  fix used :: "json list" and new_id :: int
  assume "int_in new_id used"
  then obtain v where v: "v \<in> set used" "as_int v = Some new_id"
    by (auto simp: int_in_def)
  have sub: "\<And>x. at_or_above (new_id + 1) x \<Longrightarrow> at_or_above new_id x"
    by (auto simp: at_or_above_def split: option.splits)
  have "length (filter (at_or_above (new_id + 1)) used)
        = length (filter (at_or_above (new_id + 1)) (filter (at_or_above new_id) used))"
    using sub by (auto intro!: arg_cong [where f = length] filter_cong)
  also have "\<dots> < length (filter (at_or_above new_id) used)"
  proof (rule length_filter_less [of v])
    show "v \<in> set (filter (at_or_above new_id) used)"
      using v by (simp add: at_or_above_def)
    show "\<not> at_or_above (new_id + 1) v"
      using v by (simp add: at_or_above_def)
  qed
  finally show "((used, new_id + 1), (used, new_id))
        \<in> measure (\<lambda>(used, n). length (filter (at_or_above n) used))"
    by simp
qed

declare first_free.simps [simp del]

definition find_next_available_id :: "json \<Rightarrow> error + int" where
  "find_next_available_id existing_data =
     (case key_set ''obj_id'' existing_data of
        Inl e \<Rightarrow> Inl e
      | Inr used_ids \<Rightarrow> Inr (first_free used_ids 0))"

section \<open>Meshes\<close>

text \<open>
  The mesh library is outside the repository; the model keeps what the code reads and
  changes. A triangle mesh has a vertex array and faces that index it. Its
  axis-aligned bounds range over the vertices that some face references, a transformation
  moves every vertex, and the centroid is the mean of the triangle centres weighted by
  triangle area. So a mesh is its triangles, each with the coordinates of its corners,
  and the vertices that no face references.
\<close>

type_synonym vec3 = "real \<times> real \<times> real"

type_synonym triangle = "vec3 \<times> vec3 \<times> vec3"

record mesh =
  triangles :: "triangle list"
  loose :: "vec3 list"

fun vadd :: "vec3 \<Rightarrow> vec3 \<Rightarrow> vec3" where
  "vadd (x, y, z) (x', y', z') = (x + x', y + y', z + z')"

fun vneg :: "vec3 \<Rightarrow> vec3" where
  "vneg (x, y, z) = (- x, - y, - z)"

fun smul :: "real \<Rightarrow> vec3 \<Rightarrow> vec3" where
  "smul s (x, y, z) = (s * x, s * y, s * z)"

fun cross :: "vec3 \<Rightarrow> vec3 \<Rightarrow> vec3" where
  "cross (x, y, z) (x', y', z') = (y * z' - z * y', z * x' - x * z', x * y' - y * x')"

fun norm3 :: "vec3 \<Rightarrow> real" where
  "norm3 (x, y, z) = sqrt (x * x + y * y + z * z)"

fun max3 :: "vec3 \<Rightarrow> real" where
  "max3 (x, y, z) = max x (max y z)"

fun corners :: "triangle \<Rightarrow> vec3 list" where
  "corners (a, b, c) = [a, b, c]"

definition referenced :: "mesh \<Rightarrow> vec3 list" where
  "referenced m = concat (map corners (triangles m))"

definition spread :: "real list \<Rightarrow> real" where
  "spread xs = Max (set xs) - Min (set xs)"

text \<open>
  \<^verbatim>\<open>mesh.bounding_box.extents\<close>: the bounds of a mesh without referenced vertices are
  \<^verbatim>\<open>None\<close>, and building the bounding box from them raises.
\<close>

definition extents :: "mesh \<Rightarrow> error + vec3" where
  "extents m =
     (let vs = referenced m in
      if vs = [] then Inl AttributeError
      else Inr (spread (map fst vs), spread (map (\<lambda>v. fst (snd v)) vs),
                spread (map (\<lambda>v. snd (snd v)) vs)))"

fun map_triangle :: "(vec3 \<Rightarrow> vec3) \<Rightarrow> triangle \<Rightarrow> triangle" where
  "map_triangle f (a, b, c) = (f a, f b, f c)"

definition map_vertices :: "(vec3 \<Rightarrow> vec3) \<Rightarrow> mesh \<Rightarrow> mesh" where
  "map_vertices f m =
     \<lparr>triangles = map (map_triangle f) (triangles m), loose = map f (loose m)\<rparr>"

definition apply_scale :: "real \<Rightarrow> mesh \<Rightarrow> mesh" where
  "apply_scale s m = map_vertices (smul s) m"

definition apply_translation :: "vec3 \<Rightarrow> mesh \<Rightarrow> mesh" where
  "apply_translation t m = map_vertices (vadd t) m"

fun tri_center :: "triangle \<Rightarrow> vec3" where
  "tri_center (a, b, c) = smul (1 / 3) (vadd a (vadd b c))"

fun tri_area :: "triangle \<Rightarrow> real" where
  "tri_area (a, b, c) = norm3 (cross (vadd b (vneg a)) (vadd c (vneg a))) / 2"

definition vsum :: "vec3 list \<Rightarrow> vec3" where
  "vsum vs = foldr vadd vs (0, 0, 0)"

text \<open>
  \<^verbatim>\<open>mesh.centroid\<close>: the average of the triangle centres weighted by the triangle
  areas; when the areas sum to zero the weighted average cannot be formed and the
  library falls back to the plain mean of the centres. The code reads the centroid only
  after the extents, so only of a mesh with at least one triangle.
\<close>

definition centroid :: "mesh \<Rightarrow> vec3" where
  "centroid m =
     (let ts = triangles m;
          total = sum_list (map tri_area ts)
      in if total = 0 then smul (1 / real (length ts)) (vsum (map tri_center ts))
         else smul (1 / total) (vsum (map (\<lambda>t. smul (tri_area t) (tri_center t)) ts)))"

text \<open>\<^verbatim>\<open>trimesh.util.concatenate\<close>: the buffers of the meshes one after the other.\<close>

definition concatenate :: "mesh list \<Rightarrow> mesh" where
  "concatenate ms =
     \<lparr>triangles = concat (map triangles ms), loose = concat (map loose ms)\<rparr>"

text \<open>
  What \<^verbatim>\<open>trimesh.load\<close> returns: a single mesh, or a scene with its named geometries and
  the meshes that \<^verbatim>\<open>scene.dump()\<close> yields (the geometries placed by the scene graph).
  A geometry of a scene is a triangle mesh or something else (a point cloud, a path).
\<close>

datatype geometry = Trimesh mesh | Other_geometry

datatype loaded = Single mesh | Scene "(string \<times> geometry) list" "mesh list"

fun is_trimesh :: "geometry \<Rightarrow> bool" where
  "is_trimesh (Trimesh m) = True"
| "is_trimesh Other_geometry = False"

section \<open>The world outside the process\<close>

text \<open>
  A file holds a JSON document (read back by \<^verbatim>\<open>json.load\<close> as the object that
  \<^verbatim>\<open>json.dump\<close> wrote), an exported mesh, or any other text, which is not a JSON
  document; the empty file is \<open>Other_text []\<close>. The world records the files, the
  directories that exist and, in order, what the process printed and wrote.
\<close>

datatype file_data = Json_text json | Obj_text mesh | Other_text string

datatype event = Printed string | Saved string json | Exported string mesh

record world =
  files :: "string \<Rightarrow> file_data option"
  dirs :: "string set"
  log :: "event list"

text \<open>
  The downloaded assets and the faults of the export step are given from outside:
  \<open>trimesh_load\<close> is \<open>None\<close> where \<^verbatim>\<open>trimesh.load\<close> raises, and \<open>export_raises\<close> says where
  \<^verbatim>\<open>mesh.export\<close> raises. Both are fixed for a run and between runs: a run does not
  overwrite the assets it reads.
\<close>

record env =
  trimesh_load :: "string \<Rightarrow> loaded option"
  export_raises :: "string \<Rightarrow> mesh \<Rightarrow> bool"

definition py_print :: "string \<Rightarrow> world \<Rightarrow> world" where
  "py_print s w = w\<lparr>log := log w @ [Printed s]\<rparr>"

subsection \<open>Paths\<close>

text \<open>\<^verbatim>\<open>s.split('/')\<close>: the pieces between the slashes, never an empty list.\<close>

fun split_slash :: "string \<Rightarrow> string list" where
  "split_slash [] = [[]]"
| "split_slash (c # cs) =
     (if c = CHR ''/'' then [] # split_slash cs
      else (case split_slash cs of [] \<Rightarrow> [[c]] | p # ps \<Rightarrow> (c # p) # ps))"

text \<open>\<^verbatim>\<open>path.split('/')[-2]\<close>: the last piece but one, an \<^verbatim>\<open>IndexError\<close> without a slash.\<close>

definition github_id_of :: "string \<Rightarrow> error + string" where
  "github_id_of path =
     (let pieces = split_slash path in
      if length pieces < 2 then Inl IndexError
      else Inr (pieces ! (length pieces - 2)))"

text \<open>
  \<^verbatim>\<open>os.path.join\<close> on POSIX: a component that starts with a slash replaces what was
  joined so far; otherwise it is appended, after a slash unless the path is empty or
  ends with one.
\<close>

definition starts_with_slash :: "string \<Rightarrow> bool" where
  "starts_with_slash b = (case b of [] \<Rightarrow> False | c # cs \<Rightarrow> c = CHR ''/'')"

definition ends_with_slash :: "string \<Rightarrow> bool" where
  "ends_with_slash p = (case rev p of [] \<Rightarrow> False | c # cs \<Rightarrow> c = CHR ''/'')"

definition join2 :: "string \<Rightarrow> string \<Rightarrow> string" where
  "join2 path b =
     (if starts_with_slash b then b
      else if path = [] then path @ b
      else if ends_with_slash path then path @ b
      else path @ ''/'' @ b)"

definition os_path_join :: "string \<Rightarrow> string list \<Rightarrow> string" where
  "os_path_join a ps = foldl join2 a ps"

text \<open>
  \<^verbatim>\<open>os.path.dirname\<close> on POSIX: the path up to its last slash, without trailing slashes
  unless it consists of slashes only.
\<close>

definition is_slash :: "char \<Rightarrow> bool" where
  "is_slash c = (c = CHR ''/'')"

definition os_path_dirname :: "string \<Rightarrow> string" where
  "os_path_dirname p =
     (let head = rev (dropWhile (\<lambda>c. \<not> is_slash c) (rev p)) in
      if head = [] then head
      else if list_all is_slash head then head
      else rev (dropWhile is_slash (rev head)))"

text \<open>
  \<^verbatim>\<open>os.makedirs(name, exist_ok=True)\<close>: the empty name raises \<^verbatim>\<open>FileNotFoundError\<close>;
  otherwise the directory exists afterwards. Other faults of the file system
  (permissions, a file in the way) are outside the model.
\<close>

definition os_makedirs :: "string \<Rightarrow> world \<Rightarrow> (error + unit) \<times> world" where
  "os_makedirs name w =
     (if name = [] then (Inl FileNotFoundError, w)
      else (Inr (), w\<lparr>dirs := insert name (dirs w)\<rparr>))"

subsection \<open>\<^verbatim>\<open>load_existing_json\<close> and \<^verbatim>\<open>save_to_json\<close>\<close>

definition os_path_exists :: "world \<Rightarrow> string \<Rightarrow> bool" where
  "os_path_exists w p = (case files w p of None \<Rightarrow> False | Some d \<Rightarrow> True)"

fun json_load :: "file_data option \<Rightarrow> error + json" where
  "json_load (Some (Json_text j)) = Inr j"
| "json_load (Some (Obj_text m)) = Inl JSONDecodeError"
| "json_load (Some (Other_text s)) = Inl JSONDecodeError"
| "json_load None = Inl FileNotFoundError"

definition load_existing_json :: "world \<Rightarrow> string \<Rightarrow> error + json" where
  "load_existing_json w file_path =
     (if os_path_exists w file_path then json_load (files w file_path)
      else Inr (JList []))"

definition save_to_json :: "string \<Rightarrow> json \<Rightarrow> world \<Rightarrow> (error + unit) \<times> world" where
  "save_to_json file_path data w =
     (let directory = os_path_dirname file_path in
      case os_makedirs directory w of
        (Inl e, w1) \<Rightarrow> (Inl e, w1)
      | (Inr u, w1) \<Rightarrow>
          (Inr (), w1\<lparr>files := (files w1)(file_path \<mapsto> Json_text data),
                      log := log w1 @ [Saved file_path data]\<rparr>))"

section \<open>Mesh normaliser: \<^verbatim>\<open>convert_glb_to_obj\<close>\<close>

text \<open>
  Lines 54 to 61, on the merged mesh: the scale is the largest extent of the bounding
  box, the mesh is rescaled only when that is positive, and then centred on its
  centroid. The result is the mesh to export and the scale.
\<close>

definition normalize_mesh :: "mesh \<Rightarrow> error + mesh \<times> real" where
  "normalize_mesh merged_mesh =
     (case extents merged_mesh of
        Inl e \<Rightarrow> Inl e
      | Inr ext \<Rightarrow>
          (let norm_scale = max3 ext;
               scaled = (if norm_scale > 0 then apply_scale (1 / norm_scale) merged_mesh
                         else merged_mesh);
               c = centroid scaled
           in Inr (apply_translation (vneg c) scaled, norm_scale)))"

definition export_obj :: "env \<Rightarrow> string \<Rightarrow> mesh \<Rightarrow> world \<Rightarrow> (error + unit) \<times> world" where
  "export_obj ev obj_path m w =
     (if export_raises ev obj_path m then (Inl ExportError, w)
      else (Inr (), w\<lparr>files := (files w)(obj_path \<mapsto> Obj_text m),
                       log := log w @ [Exported obj_path m]\<rparr>))"

text \<open>
  Lines 42 to 52: a scene with a geometry that is not a triangle mesh is reported and
  given up (\<open>None\<close>); otherwise its dumped meshes are concatenated.
\<close>

definition merge_loaded :: "string \<Rightarrow> loaded \<Rightarrow> world \<Rightarrow> mesh option \<times> world" where
  "merge_loaded glb_path trimesh_mesh w =
     (case trimesh_mesh of
        Scene geometry dump \<Rightarrow>
          if list_all is_trimesh (map snd geometry) then (Some (concatenate dump), w)
          else (None, py_print (''Skipping '' @ glb_path @ '' as it is not a valid Trimesh'') w)
      | Single m \<Rightarrow> (Some m, w))"

text \<open>
  The result is \<open>Inr None\<close> where the code returns \<^verbatim>\<open>None\<close>, \<open>Inr (Some norm_scale)\<close>
  where it returns the scale, and \<open>Inl e\<close> where an exception leaves the function: only
  the call of \<^verbatim>\<open>trimesh.load\<close> is inside a \<^verbatim>\<open>try\<close>.
\<close>

definition convert_glb_to_obj ::
  "env \<Rightarrow> string \<Rightarrow> string \<Rightarrow> world \<Rightarrow> (error + real option) \<times> world" where
  "convert_glb_to_obj ev glb_path obj_path w =
     (case trimesh_load ev glb_path of
        None \<Rightarrow> (Inr None, w)
      | Some trimesh_mesh \<Rightarrow>
          (case merge_loaded glb_path trimesh_mesh w of
             (None, w1) \<Rightarrow> (Inr None, w1)
           | (Some merged_mesh, w1) \<Rightarrow>
               (case normalize_mesh merged_mesh of
                  Inl e \<Rightarrow> (Inl e, w1)
                | Inr (out_mesh, norm_scale) \<Rightarrow>
                    (case export_obj ev obj_path out_mesh w1 of
                       (Inl e, w2) \<Rightarrow> (Inl e, w2)
                     | (Inr u, w2) \<Rightarrow> (Inr (Some norm_scale), w2)))))"

section \<open>Pipeline orchestrator: \<^verbatim>\<open>update_json\<close>\<close>

definition new_record :: "int \<Rightarrow> string \<Rightarrow> string \<Rightarrow> real \<Rightarrow> json" where
  "new_record new_id objaverse_id github_id norm_scale =
     JDict [(''obj_id'', JInt new_id), (''objaverse_id'', JStr objaverse_id),
            (''github_id'', JStr github_id), (''norm_scale'', JFloat norm_scale)]"

text \<open>
  A manifest record as the data model has it, the four fields as a tuple, and the
  dictionary that stands for it in the manifest.
\<close>

definition manifest_record :: "int \<times> string \<times> string \<times> real \<Rightarrow> json" where
  "manifest_record r = (case r of (i, a, g, s) \<Rightarrow> new_record i a g s)"

text \<open>\<^verbatim>\<open>existing_data.append(item)\<close>: only a list has \<^verbatim>\<open>append\<close>.\<close>

fun py_append :: "json \<Rightarrow> json \<Rightarrow> error + json" where
  "py_append (JList xs) item = Inr (JList (xs @ [item]))"
| "py_append JNull item = Inl AttributeError"
| "py_append (JBool b) item = Inl AttributeError"
| "py_append (JInt n) item = Inl AttributeError"
| "py_append (JFloat r) item = Inl AttributeError"
| "py_append (JStr s) item = Inl AttributeError"
| "py_append (JDict kvs) item = Inl AttributeError"

definition obj_path_of :: "string \<Rightarrow> string \<Rightarrow> string \<Rightarrow> string" where
  "obj_path_of objaverse_base_path github_id objaverse_id =
     os_path_join objaverse_base_path [''objs'', github_id, objaverse_id, ''model_scaled.obj'']"

text \<open>
  Lines 85 to 95, after a conversion that returned a scale: the record is appended and,
  when the loop index is a multiple of 250, the manifest is saved.
\<close>

definition add_record ::
  "string \<Rightarrow> nat \<Rightarrow> string \<Rightarrow> string \<Rightarrow> real \<Rightarrow> json \<Rightarrow> world \<Rightarrow> (error + json) \<times> world" where
  "add_record file_path idx objaverse_id github_id norm_scale existing_data w =
     (case find_next_available_id existing_data of
        Inl e \<Rightarrow> (Inl e, w)
      | Inr new_id \<Rightarrow>
          (case py_append existing_data (new_record new_id objaverse_id github_id norm_scale) of
             Inl e \<Rightarrow> (Inl e, w)
           | Inr data \<Rightarrow>
               if idx mod 250 = 0 then
                 (case save_to_json file_path data w of
                    (Inl e, w1) \<Rightarrow> (Inl e, w1)
                  | (Inr u, w1) \<Rightarrow> (Inr data, w1))
               else (Inr data, w)))"

text \<open>
  One round of the loop, lines 74 to 95, for the request \<open>(objaverse_id, path)\<close> at
  position \<open>idx\<close>. \<open>existing_map\<close> is the set built before the loop; the loop does not
  update it.
\<close>

definition process_item ::
  "env \<Rightarrow> string \<Rightarrow> string \<Rightarrow> json list \<Rightarrow> nat \<Rightarrow> string \<Rightarrow> string \<Rightarrow> json \<Rightarrow> world
     \<Rightarrow> (error + json) \<times> world" where
  "process_item ev objaverse_base_path file_path existing_map idx objaverse_id path
       existing_data w =
     (if JStr objaverse_id \<in> set existing_map then (Inr existing_data, w)
      else
        (case github_id_of path of
           Inl e \<Rightarrow> (Inl e, w)
         | Inr github_id \<Rightarrow>
             (let obj_path = obj_path_of objaverse_base_path github_id objaverse_id;
                  obj_path_dir = os_path_dirname obj_path
              in case os_makedirs obj_path_dir w of
                   (Inl e, w1) \<Rightarrow> (Inl e, w1)
                 | (Inr u, w1) \<Rightarrow>
                     (case convert_glb_to_obj ev path obj_path w1 of
                        (Inl e, w2) \<Rightarrow> (Inl e, w2)
                      | (Inr None, w2) \<Rightarrow>
                          (Inr existing_data,
                           py_print (path @ '' could not be converted to .obj'') w2)
                      | (Inr (Some norm_scale), w2) \<Rightarrow>
                          add_record file_path idx objaverse_id github_id norm_scale
                            existing_data w2))))"

text \<open>
  The loop over \<^verbatim>\<open>enumerate(objaverse_dict.items())\<close>: the requests in the order of the
  dictionary, counted from \<open>idx\<close>. An exception ends the loop with the world as it is.
\<close>

fun run_loop ::
  "env \<Rightarrow> string \<Rightarrow> string \<Rightarrow> json list \<Rightarrow> nat \<Rightarrow> (string \<times> string) list \<Rightarrow> json \<Rightarrow> world
     \<Rightarrow> (error + json) \<times> world" where
  "run_loop ev base file_path existing_map idx [] existing_data w = (Inr existing_data, w)"
| "run_loop ev base file_path existing_map idx ((objaverse_id, path) # rest) existing_data w =
     (case process_item ev base file_path existing_map idx objaverse_id path existing_data w of
        (Inl e, w1) \<Rightarrow> (Inl e, w1)
      | (Inr data, w1) \<Rightarrow> run_loop ev base file_path existing_map (Suc idx) rest data w1)"

definition update_json ::
  "env \<Rightarrow> (string \<times> string) list \<Rightarrow> string \<Rightarrow> string \<Rightarrow> world \<Rightarrow> (error + unit) \<times> world" where
  "update_json ev objaverse_dict objaverse_base_path file_path w =
     (case load_existing_json w file_path of
        Inl e \<Rightarrow> (Inl e, w)
      | Inr existing_data \<Rightarrow>
          (case key_set ''objaverse_id'' existing_data of
             Inl e \<Rightarrow> (Inl e, w)
           | Inr existing_map \<Rightarrow>
               (case run_loop ev objaverse_base_path file_path existing_map 0 objaverse_dict
                       existing_data w of
                  (Inl e, w1) \<Rightarrow> (Inl e, w1)
                | (Inr data, w1) \<Rightarrow> save_to_json file_path data w1)))"

section \<open>Reading the log\<close>

text \<open>The manifests saved and the meshes exported, in order, among the events of a log.\<close>

fun saved :: "event \<Rightarrow> (string \<times> json) list" where
  "saved (Saved p d) = [(p, d)]"
| "saved (Printed s) = []"
| "saved (Exported p m) = []"

definition saves :: "event list \<Rightarrow> (string \<times> json) list" where
  "saves evs = concat (map saved evs)"

fun exported :: "event \<Rightarrow> (string \<times> mesh) list" where
  "exported (Exported p m) = [(p, m)]"
| "exported (Printed s) = []"
| "exported (Saved p d) = []"

definition exports :: "event list \<Rightarrow> (string \<times> mesh) list" where
  "exports evs = concat (map exported evs)"

section \<open>Concrete inputs\<close>

text \<open>The worlds, meshes and assets at which the properties below are evaluated.\<close>

definition empty_world :: world where
  "empty_world = \<lparr>files = (\<lambda>p. None), dirs = {}, log = []\<rparr>"

text \<open>A triangle whose three corners are the point \<open>(1, 2, 3)\<close>: all extents are zero.\<close>

definition point_mesh :: mesh where
  "point_mesh = \<lparr>triangles = [((1, 2, 3), (1, 2, 3), (1, 2, 3))], loose = []\<rparr>"

definition origin_mesh :: mesh where
  "origin_mesh = \<lparr>triangles = [((0, 0, 0), (0, 0, 0), (0, 0, 0))], loose = []\<rparr>"

text \<open>A triangle with the extents \<open>(2, 4, 1)\<close>.\<close>

definition slab_mesh :: mesh where
  "slab_mesh = \<lparr>triangles = [((0, 0, 0), (2, 0, 0), (0, 4, 1))], loose = []\<rparr>"

text \<open>The slab rescaled by \<open>1 / 4\<close> and centred, as it is exported.\<close>

definition slab_normalized :: mesh where
  "slab_normalized =
     apply_translation (vneg (centroid (apply_scale (1 / 4) slab_mesh)))
       (apply_scale (1 / 4) slab_mesh)"

text \<open>
  Assets: \<open>slab.glb\<close> and \<open>point.glb\<close> load as single meshes, \<open>cloud.glb\<close> as a scene
  that holds a point cloud, and every other path fails to load. \<open>sound_env\<close> exports
  without faults; \<open>faulty_env\<close> raises on every export.
\<close>

definition example_load :: "string \<Rightarrow> loaded option" where
  "example_load p =
     (if p = ''/dl/g1/slab.glb'' then Some (Single slab_mesh)
      else if p = ''/dl/g2/point.glb'' then Some (Single point_mesh)
      else if p = ''/dl/g3/cloud.glb'' then Some (Scene [(''pts'', Other_geometry)] [])
      else None)"

definition sound_env :: env where
  "sound_env = \<lparr>trimesh_load = example_load, export_raises = (\<lambda>p m. False)\<rparr>"

definition faulty_env :: env where
  "faulty_env = \<lparr>trimesh_load = example_load, export_raises = (\<lambda>p m. True)\<rparr>"

text \<open>The base directory and the manifest path of the example runs.\<close>

definition example_base :: string where
  "example_base = ''/out''"

definition example_manifest :: string where
  "example_manifest = ''/out/objaverse_models.json''"

section \<open>Requests whose conversion fails\<close>

text \<open>
  The requests for which the round reaches \<^verbatim>\<open>convert_glb_to_obj\<close> and gets \<^verbatim>\<open>None\<close>: the
  path has a last piece but one, the output directory can be made, and the asset does
  not load or is a scene with a geometry that is not a triangle mesh. What the conversion
  returns does not depend on the world, so it is read off in the empty one.
\<close>

definition conversion_fails :: "env \<Rightarrow> string \<Rightarrow> string \<Rightarrow> string \<Rightarrow> bool" where
  "conversion_fails ev objaverse_base_path objaverse_id path =
     (case github_id_of path of
        Inl e \<Rightarrow> False
      | Inr github_id \<Rightarrow>
          os_path_dirname (obj_path_of objaverse_base_path github_id objaverse_id) \<noteq> [] \<and>
          fst (convert_glb_to_obj ev path
                 (obj_path_of objaverse_base_path github_id objaverse_id) empty_world) = Inr None)"

section \<open>Properties of the manifest store\<close>

lemma first_free_props:
  "n \<le> first_free used n \<and> \<not> int_in (first_free used n) used \<and>
   (\<forall>m. n \<le> m \<and> m < first_free used n \<longrightarrow> int_in m used)"
proof (induction used n rule: first_free.induct)
  case (1 used new_id)
  show ?case
  proof (cases "int_in new_id used")
    case True
    from "1" [OF True] have ih: "new_id + 1 \<le> first_free used (new_id + 1)"
      "\<not> int_in (first_free used (new_id + 1)) used"
      "\<And>m. new_id + 1 \<le> m \<Longrightarrow> m < first_free used (new_id + 1) \<Longrightarrow> int_in m used"
      by auto
    have eq: "first_free used new_id = first_free used (new_id + 1)"
      using True by (subst first_free.simps) simp
    have "int_in m used" if "new_id \<le> m" "m < first_free used (new_id + 1)" for m
    proof (cases "m = new_id")
      case True
      with \<open>int_in new_id used\<close> show ?thesis by simp
    next
      case False
      with that have "new_id + 1 \<le> m" by simp
      then show ?thesis using that(2) by (rule ih(3))
    qed
    with ih(1,2) show ?thesis
      unfolding eq by simp
  next
    case False
    then have "first_free used new_id = new_id"
      by (subst first_free.simps) simp
    with False show ?thesis by auto
  qed
qed

lemma collect_obj_id_records:
  "collect_key ''obj_id'' (map manifest_record rs) = Inr (map (\<lambda>r. JInt (fst r)) rs)"
  by (induction rs) (auto simp: manifest_record_def new_record_def)

lemma int_in_JInt: "int_in n (map (\<lambda>r. JInt (fst r)) rs) \<longleftrightarrow> n \<in> set (map fst rs)"
  by (auto simp: int_in_def image_iff)

text \<open>
  Claim C4: on a sequence of manifest records, \<^verbatim>\<open>find_next_available_id\<close> returns, and what
  it returns is the smallest non-negative integer that is not the \<open>obj_id\<close> of a record.
  The function is total, so the result is a function of the records alone.
\<close>

theorem next_available_id_smallest_unused:
  "\<exists>n. find_next_available_id (JList (map manifest_record rs)) = Inr n \<and> 0 \<le> n \<and>
       n \<notin> set (map fst rs) \<and> (\<forall>m. 0 \<le> m \<and> m < n \<longrightarrow> m \<in> set (map fst rs))"
  using first_free_props [of 0 "map (\<lambda>r. JInt (fst r)) rs"]
  by (simp add: find_next_available_id_def key_set_def collect_obj_id_records int_in_JInt)

text \<open>On records with the identifiers 0, 1 and 3 the result is 2.\<close>

theorem next_available_id_witness:
  "find_next_available_id
     (JList [new_record 0 ''a'' ''g'' 1, new_record 1 ''b'' ''g'' 2, new_record 3 ''c'' ''h'' 4]) = Inr 2"
proof -
  obtain n where n: "find_next_available_id (JList (map manifest_record
        [(0, ''a'', ''g'', 1), (1, ''b'', ''g'', 2), (3, ''c'', ''h'', 4)])) = Inr n"
      "0 \<le> n" "n \<notin> {0, 1, 3}" "\<forall>m. 0 \<le> m \<and> m < n \<longrightarrow> m \<in> {0, 1, 3}"
    using next_available_id_smallest_unused
      [of "[(0, ''a'', ''g'', 1), (1, ''b'', ''g'', 2), (3, ''c'', ''h'', 4)]"]
    by auto
  have "n = 2"
  proof (rule ccontr)
    assume "n \<noteq> 2"
    with n(2,3) have "2 < n" by auto
    with n(4) [rule_format, of 2] have "(2::int) \<in> {0, 1, 3}" by simp
    then show False by simp
  qed
  with n(1) show ?thesis by (simp add: manifest_record_def)
qed

subsection \<open>Loading the manifest\<close>

text \<open>
  Claim C3, as the code has it: \<^verbatim>\<open>load_existing_json\<close> returns the empty list when no
  file is at the path; a file that holds a JSON document is read as that document,
  whatever its shape; a file that holds anything else raises the decoder's error, and
  so does the empty file.
\<close>

theorem load_existing_json_cases:
  "(files w p = None \<longrightarrow> load_existing_json w p = Inr (JList [])) \<and>
   (\<forall>j. files w p = Some (Json_text j) \<longrightarrow> load_existing_json w p = Inr j) \<and>
   (\<forall>s. files w p = Some (Other_text s) \<longrightarrow> load_existing_json w p = Inl JSONDecodeError) \<and>
   (\<forall>m. files w p = Some (Obj_text m) \<longrightarrow> load_existing_json w p = Inl JSONDecodeError)"
  by (simp add: load_existing_json_def os_path_exists_def)

text \<open>A missing manifest, a manifest that is an empty dictionary, and a truncated one.\<close>

theorem load_existing_json_witness:
  "load_existing_json empty_world ''/out/objaverse_models.json'' = Inr (JList []) \<and>
   load_existing_json
     (empty_world\<lparr>files := (files empty_world)(''/out/objaverse_models.json'' \<mapsto> Json_text (JDict []))\<rparr>)
     ''/out/objaverse_models.json'' = Inr (JDict []) \<and>
   load_existing_json
     (empty_world\<lparr>files := (files empty_world)(''/out/objaverse_models.json'' \<mapsto> Other_text ''[{'')\<rparr>)
     ''/out/objaverse_models.json'' = Inl JSONDecodeError"
  using load_existing_json_cases [of empty_world "''/out/objaverse_models.json''"]
    load_existing_json_cases [of "empty_world\<lparr>files := (files empty_world)(''/out/objaverse_models.json'' \<mapsto> Json_text (JDict []))\<rparr>" "''/out/objaverse_models.json''"]
    load_existing_json_cases [of "empty_world\<lparr>files := (files empty_world)(''/out/objaverse_models.json'' \<mapsto> Other_text ''[{'')\<rparr>" "''/out/objaverse_models.json''"]
  by (simp add: empty_world_def)

text \<open>
  The claim as stated, that a file that exists and is empty reads as the empty
  sequence, fails: the path exists, so the file is decoded, and the decoder rejects the
  empty text.
\<close>

theorem empty_manifest_file_counterexample:
  "os_path_exists
     (empty_world\<lparr>files := (files empty_world)(''/out/objaverse_models.json'' \<mapsto> Other_text [])\<rparr>)
     ''/out/objaverse_models.json'' \<and>
   load_existing_json
     (empty_world\<lparr>files := (files empty_world)(''/out/objaverse_models.json'' \<mapsto> Other_text [])\<rparr>)
     ''/out/objaverse_models.json'' = Inl JSONDecodeError"
  by (simp add: load_existing_json_def os_path_exists_def)

section \<open>Properties of the mesh normaliser\<close>

lemma referenced_map_vertices: "referenced (map_vertices f m) = map f (referenced m)"
proof -
  have "concat (map corners (map (map_triangle f) ts)) = map f (concat (map corners ts))" for ts
    by (induction ts) auto
  then show ?thesis
    by (simp add: referenced_def map_vertices_def)
qed

lemma spread_scale:
  assumes "xs \<noteq> []" and "0 < s"
  shows "spread (map (\<lambda>v. s * f v) xs) = s * spread (map f xs)"
proof -
  have fin: "finite (f ` set xs)" "f ` set xs \<noteq> {}"
    using assms by auto
  have m: "mono (\<lambda>x. s * x)"
    using assms by (simp add: mono_def)
  have img: "(\<lambda>v. s * f v) ` set xs = (\<lambda>x. s * x) ` (f ` set xs)"
    by (simp add: image_image)
  have "Max ((\<lambda>v. s * f v) ` set xs) = s * Max (f ` set xs)"
    unfolding img using mono_Max_commute [OF m fin] by simp
  moreover have "Min ((\<lambda>v. s * f v) ` set xs) = s * Min (f ` set xs)"
    unfolding img using mono_Min_commute [OF m fin] by simp
  ultimately show ?thesis
    by (simp add: spread_def right_diff_distrib)
qed

lemma spread_shift:
  assumes "xs \<noteq> []"
  shows "spread (map (\<lambda>v. t + f v) xs) = spread (map f xs)"
proof -
  have fin: "finite (f ` set xs)" "f ` set xs \<noteq> {}"
    using assms by auto
  have m: "mono (\<lambda>x. t + x)"
    by (simp add: mono_def)
  have img: "(\<lambda>v. t + f v) ` set xs = (\<lambda>x. t + x) ` (f ` set xs)"
    by (simp add: image_image)
  have "Max ((\<lambda>v. t + f v) ` set xs) = t + Max (f ` set xs)"
    unfolding img using mono_Max_commute [OF m fin] by simp
  moreover have "Min ((\<lambda>v. t + f v) ` set xs) = t + Min (f ` set xs)"
    unfolding img using mono_Min_commute [OF m fin] by simp
  ultimately show ?thesis
    by (simp add: spread_def)
qed

lemma spread_nonneg: "xs \<noteq> [] \<Longrightarrow> 0 \<le> spread xs"
  by (simp add: spread_def)

lemma extents_apply_scale:
  assumes "extents m = Inr (ex, ey, ez)" and "0 < s"
  shows "extents (apply_scale s m) = Inr (s * ex, s * ey, s * ez)"
proof -
  from assms(1) have ne: "referenced m \<noteq> []"
    by (auto simp: extents_def Let_def split: if_splits)
  have comp: "fst \<circ> smul s = (\<lambda>v. s * fst v)"
    "(\<lambda>v. fst (snd v)) \<circ> smul s = (\<lambda>v. s * fst (snd v))"
    "(\<lambda>v. snd (snd v)) \<circ> smul s = (\<lambda>v. s * snd (snd v))"
    by (auto simp: fun_eq_iff)
  show ?thesis
    using assms ne
    by (simp add: extents_def Let_def apply_scale_def referenced_map_vertices comp
        spread_scale [OF ne assms(2)])
qed

lemma extents_apply_translation: "extents (apply_translation t m) = extents m"
proof (cases "referenced m = []")
  case True
  then show ?thesis
    by (simp add: extents_def Let_def apply_translation_def referenced_map_vertices)
next
  case False
  obtain tx ty tz where t: "t = (tx, ty, tz)"
    by (cases t) auto
  have comp: "fst \<circ> vadd t = (\<lambda>v. tx + fst v)"
    "(\<lambda>v. fst (snd v)) \<circ> vadd t = (\<lambda>v. ty + fst (snd v))"
    "(\<lambda>v. snd (snd v)) \<circ> vadd t = (\<lambda>v. tz + snd (snd v))"
    by (auto simp: fun_eq_iff t)
  show ?thesis
    using False
    by (simp add: extents_def Let_def apply_translation_def referenced_map_vertices comp
        spread_shift [OF False])
qed

lemma extents_nonneg:
  assumes "extents m = Inr (ex, ey, ez)"
  shows "0 \<le> ex \<and> 0 \<le> ey \<and> 0 \<le> ez"
  using assms by (auto simp: extents_def Let_def spread_nonneg split: if_splits)

lemma max3_nonneg: "extents m = Inr ext \<Longrightarrow> 0 \<le> max3 ext"
  by (cases ext) (auto dest: extents_nonneg)

lemma max3_scale: "0 < s \<Longrightarrow> max3 (s * ex, s * ey, s * ez) = s * max3 (ex, ey, ez)"
  by (simp add: max_def)

lemma normalize_mesh_scaled:
  assumes "extents m = Inr ext" and "0 < max3 ext"
  shows "normalize_mesh m =
           Inr (apply_translation (vneg (centroid (apply_scale (1 / max3 ext) m)))
                  (apply_scale (1 / max3 ext) m), max3 ext)"
  using assms by (simp add: normalize_mesh_def Let_def)

lemma normalize_mesh_degenerate:
  assumes "extents m = Inr ext" and "max3 ext = 0"
  shows "normalize_mesh m = Inr (apply_translation (vneg (centroid m)) m, 0)"
  using assms by (simp add: normalize_mesh_def Let_def)

lemma extents_normalized:
  assumes "extents m = Inr ext" and "0 < max3 ext"
  shows "\<exists>ext'. extents (apply_translation t (apply_scale (1 / max3 ext) m)) = Inr ext' \<and>
           max3 ext' = 1"
proof -
  obtain ex ey ez where ext: "ext = (ex, ey, ez)"
    by (cases ext) auto
  define s where "s = 1 / max3 ext"
  have s: "0 < s"
    using assms(2) by (simp add: s_def)
  have "extents (apply_translation t (apply_scale s m)) = Inr (s * ex, s * ey, s * ez)"
    using assms(1) s by (simp add: extents_apply_translation extents_apply_scale ext)
  moreover have "max3 (s * ex, s * ey, s * ez) = 1"
    using assms(2) s unfolding max3_scale [OF s] by (simp add: s_def ext)
  ultimately show ?thesis
    unfolding s_def by blast
qed


lemma merge_loaded_world: "merge_loaded glb tm w = (Some merged, w1) \<Longrightarrow> w1 = w"
  by (auto simp: merge_loaded_def split: loaded.splits if_splits)

lemma convert_exports:
  assumes "trimesh_load ev glb = Some tm"
    and "merge_loaded glb tm w = (Some merged, w1)"
    and "normalize_mesh merged = Inr (out, s)"
    and "\<not> export_raises ev obj out"
  shows "convert_glb_to_obj ev glb obj w =
           (Inr (Some s), w\<lparr>files := (files w)(obj \<mapsto> Obj_text out),
                             log := log w @ [Exported obj out]\<rparr>)"
  using assms merge_loaded_world [OF assms(2)]
  by (simp add: convert_glb_to_obj_def export_obj_def)

text \<open>
  Claim C9: when the merged mesh has a positive largest bounding-box extent and the
  export does not raise, \<^verbatim>\<open>convert_glb_to_obj\<close> returns that extent, the value before
  rescaling, and exports the mesh rescaled by its inverse and then centred; the largest
  bounding-box extent of the exported mesh is 1. Coordinates are real numbers here, so
  the equality is exact.
\<close>

theorem unit_scale_after_normalize:
  assumes "trimesh_load ev glb = Some tm"
    and "merge_loaded glb tm w = (Some merged, w1)"
    and "extents merged = Inr ext0"
    and "0 < max3 ext0"
    and "normalize_mesh merged = Inr (out, s)"
    and "\<not> export_raises ev obj out"
  shows "s = max3 ext0 \<and>
         out = apply_translation (vneg (centroid (apply_scale (1 / s) merged)))
                 (apply_scale (1 / s) merged) \<and>
         fst (convert_glb_to_obj ev glb obj w) = Inr (Some s) \<and>
         files (snd (convert_glb_to_obj ev glb obj w)) obj = Some (Obj_text out) \<and>
         (\<exists>ext. extents out = Inr ext \<and> max3 ext = 1)"
proof -
  have "Inr (out, s) = normalize_mesh merged"
    using assms(5) by (rule sym)
  also have "\<dots> = Inr (apply_translation
          (vneg (centroid (apply_scale (1 / max3 ext0) merged)))
          (apply_scale (1 / max3 ext0) merged), max3 ext0)"
    by (rule normalize_mesh_scaled [OF assms(3,4)])
  finally have s: "s = max3 ext0"
    and out: "out = apply_translation (vneg (centroid (apply_scale (1 / max3 ext0) merged)))
                 (apply_scale (1 / max3 ext0) merged)"
    by blast+
  have "\<exists>ext. extents out = Inr ext \<and> max3 ext = 1"
    unfolding out by (rule extents_normalized [OF assms(3,4)])
  moreover have "out = apply_translation (vneg (centroid (apply_scale (1 / s) merged)))
                 (apply_scale (1 / s) merged)"
    unfolding s by (rule out)
  moreover note convert_exports [OF assms(1,2,5,6)] s
  ultimately show ?thesis
    by simp
qed

lemma extents_slab: "extents slab_mesh = Inr (2, 4, 1)"
  by (simp add: extents_def referenced_def slab_mesh_def spread_def)

text \<open>The triangle with the extents \<open>(2, 4, 1)\<close>: the scale returned is 4.\<close>

theorem unit_scale_witness:
  "fst (convert_glb_to_obj sound_env ''/dl/g1/slab.glb'' ''/out/model_scaled.obj'' empty_world)
     = Inr (Some 4) \<and>
   (\<exists>out ext.
      files (snd (convert_glb_to_obj sound_env ''/dl/g1/slab.glb'' ''/out/model_scaled.obj''
                    empty_world)) ''/out/model_scaled.obj'' = Some (Obj_text out) \<and>
      extents out = Inr ext \<and> max3 ext = 1)"
proof -
  let ?out = "apply_translation (vneg (centroid (apply_scale (1 / 4) slab_mesh)))
                (apply_scale (1 / 4) slab_mesh)"
  have 1: "trimesh_load sound_env ''/dl/g1/slab.glb'' = Some (Single slab_mesh)"
    by (simp add: sound_env_def example_load_def)
  have 2: "merge_loaded ''/dl/g1/slab.glb'' (Single slab_mesh) empty_world
             = (Some slab_mesh, empty_world)"
    by (simp add: merge_loaded_def)
  have 4: "0 < max3 (2, 4, 1)"
    by simp
  have 5: "normalize_mesh slab_mesh = Inr (?out, 4)"
    using normalize_mesh_scaled [OF extents_slab 4] by simp
  have 6: "\<not> export_raises sound_env ''/out/model_scaled.obj'' ?out"
    by (simp add: sound_env_def)
  from unit_scale_after_normalize [OF 1 2 extents_slab 4 5 6]
  show ?thesis
    by blast
qed

text \<open>
  Claim C8, as the code has it: when the largest bounding-box extent of the merged mesh
  is zero and the export does not raise, \<^verbatim>\<open>convert_glb_to_obj\<close> returns 0, does not
  rescale, and exports the mesh translated by minus its centroid. The coordinates are
  those of the input only when the centroid is the origin.
\<close>

theorem degenerate_mesh_is_translated:
  assumes "trimesh_load ev glb = Some tm"
    and "merge_loaded glb tm w = (Some merged, w1)"
    and "extents merged = Inr ext0"
    and "max3 ext0 = 0"
    and "\<not> export_raises ev obj (apply_translation (vneg (centroid merged)) merged)"
  shows "normalize_mesh merged = Inr (apply_translation (vneg (centroid merged)) merged, 0) \<and>
         fst (convert_glb_to_obj ev glb obj w) = Inr (Some 0) \<and>
         files (snd (convert_glb_to_obj ev glb obj w)) obj
           = Some (Obj_text (apply_translation (vneg (centroid merged)) merged))"
  using convert_exports [OF assms(1,2) normalize_mesh_degenerate [OF assms(3,4)] assms(5)]
    normalize_mesh_degenerate [OF assms(3,4)]
  by simp

lemma extents_point: "extents point_mesh = Inr (0, 0, 0)"
  by (simp add: extents_def referenced_def point_mesh_def spread_def)

lemma centroid_point: "centroid point_mesh = (1, 2, 3)"
  by (simp add: centroid_def point_mesh_def vsum_def)

lemma translate_point: "apply_translation (- 1, - 2, - 3) point_mesh = origin_mesh"
  by (simp add: apply_translation_def map_vertices_def point_mesh_def origin_mesh_def)

text \<open>The triangle at the point \<open>(1, 2, 3)\<close> is exported at the origin.\<close>

theorem degenerate_mesh_witness:
  "fst (convert_glb_to_obj sound_env ''/dl/g2/point.glb'' ''/out/model_scaled.obj'' empty_world)
     = Inr (Some 0) \<and>
   files (snd (convert_glb_to_obj sound_env ''/dl/g2/point.glb'' ''/out/model_scaled.obj''
                 empty_world)) ''/out/model_scaled.obj''
     = Some (Obj_text origin_mesh)"
proof -
  have 1: "trimesh_load sound_env ''/dl/g2/point.glb'' = Some (Single point_mesh)"
    by (simp add: sound_env_def example_load_def)
  have 2: "merge_loaded ''/dl/g2/point.glb'' (Single point_mesh) empty_world
             = (Some point_mesh, empty_world)"
    by (simp add: merge_loaded_def)
  have 4: "max3 (0, 0, 0) = 0"
    by simp
  have 5: "\<not> export_raises sound_env ''/out/model_scaled.obj''
             (apply_translation (vneg (centroid point_mesh)) point_mesh)"
    by (simp add: sound_env_def)
  from degenerate_mesh_is_translated [OF 1 2 extents_point 4 5]
  show ?thesis
    by (simp add: centroid_point translate_point)
qed

text \<open>
  The claim as stated, that the coordinates of a zero-extent mesh are exported
  unchanged, fails for the triangle at \<open>(1, 2, 3)\<close>: the scale is 0 and the exported
  corners are at the origin.
\<close>

theorem degenerate_mesh_moved_counterexample:
  "extents point_mesh = Inr (0, 0, 0) \<and>
   convert_glb_to_obj sound_env ''/dl/g2/point.glb'' ''/out/model_scaled.obj'' empty_world
     = (Inr (Some 0),
        empty_world\<lparr>files := (files empty_world)(''/out/model_scaled.obj'' \<mapsto> Obj_text origin_mesh),
                      log := [Exported ''/out/model_scaled.obj'' origin_mesh]\<rparr>) \<and>
   triangles origin_mesh \<noteq> triangles point_mesh"
proof -
  have n: "normalize_mesh point_mesh = Inr (origin_mesh, 0)"
    using normalize_mesh_degenerate [OF extents_point] by (simp add: centroid_point translate_point)
  have "convert_glb_to_obj sound_env ''/dl/g2/point.glb'' ''/out/model_scaled.obj'' empty_world
     = (Inr (Some 0),
        empty_world\<lparr>files := (files empty_world)(''/out/model_scaled.obj'' \<mapsto> Obj_text origin_mesh),
                      log := [Exported ''/out/model_scaled.obj'' origin_mesh]\<rparr>)"
    by (simp add: convert_glb_to_obj_def sound_env_def example_load_def merge_loaded_def n
        export_obj_def empty_world_def)
  moreover have "triangles origin_mesh \<noteq> triangles point_mesh"
    by (simp add: origin_mesh_def point_mesh_def)
  ultimately show ?thesis
    using extents_point by simp
qed

section \<open>Properties of the orchestrator\<close>

subsection \<open>What one conversion and one round do\<close>

lemma saves_append [simp]: "saves (xs @ ys) = saves xs @ saves ys"
  by (simp add: saves_def)

lemma exports_append [simp]: "exports (xs @ ys) = exports xs @ exports ys"
  by (simp add: exports_def)

lemma saves_single [simp]:
  "saves [Saved p d] = [(p, d)]" "saves [Printed s] = []" "saves [Exported p m] = []" "saves [] = []"
  by (simp_all add: saves_def)

lemma exports_single [simp]:
  "exports [Saved p d] = []" "exports [Printed s] = []" "exports [Exported p m] = [(p, m)]"
  "exports [] = []"
  by (simp_all add: exports_def)

lemma save_to_json_eq:
  "save_to_json fp data w =
     (if os_path_dirname fp = [] then (Inl FileNotFoundError, w)
      else (Inr (), w\<lparr>dirs := insert (os_path_dirname fp) (dirs w),
                       files := (files w)(fp \<mapsto> Json_text data),
                       log := log w @ [Saved fp data]\<rparr>))"
  by (simp add: save_to_json_def os_makedirs_def Let_def)

lemma merge_loaded_fst: "fst (merge_loaded glb tm w) = fst (merge_loaded glb tm w')"
  by (simp add: merge_loaded_def split: loaded.splits)

lemma merge_loaded_effect:
  "merge_loaded glb tm w = (r, w') \<Longrightarrow>
     files w' = files w \<and> dirs w' = dirs w \<and> saves (log w') = saves (log w) \<and>
     exports (log w') = exports (log w)"
  by (auto simp: merge_loaded_def py_print_def split: loaded.splits if_splits)

lemma merge_loaded_cases:
  obtains (merged) merged where "merge_loaded glb tm w = (Some merged, w)"
  | (not_mesh) "merge_loaded glb tm w =
        (None, py_print (''Skipping '' @ glb @ '' as it is not a valid Trimesh'') w)"
proof (cases tm)
  case (Single m)
  then show ?thesis
    by (intro merged [of m]) (simp add: merge_loaded_def)
next
  case (Scene geometry dump)
  show ?thesis
  proof (cases "list_all is_trimesh (map snd geometry)")
    case True
    with Scene show ?thesis
      by (intro merged [of "concatenate dump"]) (simp add: merge_loaded_def)
  next
    case False
    with Scene show ?thesis
      by (intro not_mesh) (simp add: merge_loaded_def)
  qed
qed

lemma convert_cases:
  obtains (load_failed) "trimesh_load ev glb = None"
      "convert_glb_to_obj ev glb obj w = (Inr None, w)"
  | (not_mesh) tm where "trimesh_load ev glb = Some tm"
      "fst (merge_loaded glb tm w) = None"
      "convert_glb_to_obj ev glb obj w =
         (Inr None, py_print (''Skipping '' @ glb @ '' as it is not a valid Trimesh'') w)"
  | (raised) tm merged e where "trimesh_load ev glb = Some tm"
      "fst (merge_loaded glb tm w) = Some merged" "normalize_mesh merged = Inl e"
      "convert_glb_to_obj ev glb obj w = (Inl e, w)"
  | (export_failed) tm merged out s where "trimesh_load ev glb = Some tm"
      "fst (merge_loaded glb tm w) = Some merged" "normalize_mesh merged = Inr (out, s)"
      "export_raises ev obj out"
      "convert_glb_to_obj ev glb obj w = (Inl ExportError, w)"
  | (exported) tm merged out s where "trimesh_load ev glb = Some tm"
      "fst (merge_loaded glb tm w) = Some merged" "normalize_mesh merged = Inr (out, s)"
      "\<not> export_raises ev obj out"
      "convert_glb_to_obj ev glb obj w =
         (Inr (Some s), w\<lparr>files := (files w)(obj \<mapsto> Obj_text out),
                           log := log w @ [Exported obj out]\<rparr>)"
proof (cases "trimesh_load ev glb")
  case None
  then show ?thesis
    by (intro load_failed) (simp_all add: convert_glb_to_obj_def)
next
  case (Some tm)
  show ?thesis
  proof (cases glb tm w rule: merge_loaded_cases)
    case not_mesh
    with Some show ?thesis
      by (intro that(2) [of tm]) (simp_all add: convert_glb_to_obj_def)
  next
    case (merged merged)
    show ?thesis
    proof (cases "normalize_mesh merged")
      case (Inl e)
      with Some merged show ?thesis
        by (intro raised [of tm merged e]) (simp_all add: convert_glb_to_obj_def)
    next
      case (Inr res)
      obtain out s where res: "res = (out, s)" by (cases res)
      show ?thesis
      proof (cases "export_raises ev obj out")
        case True
        with Some merged Inr res show ?thesis
          by (intro export_failed [of tm merged out s])
            (simp_all add: convert_glb_to_obj_def export_obj_def)
      next
        case False
        with Some merged Inr res show ?thesis
          by (intro exported [of tm merged out s])
            (simp_all add: convert_glb_to_obj_def export_obj_def)
      qed
    qed
  qed
qed

lemma convert_fst_indep:
  "fst (convert_glb_to_obj ev glb obj w) = fst (convert_glb_to_obj ev glb obj w')"
proof (cases ev glb obj w rule: convert_cases)
  case load_failed
  then show ?thesis by (simp add: convert_glb_to_obj_def)
next
  case (not_mesh tm)
  then have "fst (merge_loaded glb tm w') = None"
    using merge_loaded_fst [of glb tm w w'] by simp
  with not_mesh show ?thesis
    by (cases "merge_loaded glb tm w'") (simp add: convert_glb_to_obj_def)
next
  case (raised tm merged e)
  then have "fst (merge_loaded glb tm w') = Some merged"
    using merge_loaded_fst [of glb tm w w'] by simp
  with raised show ?thesis
    by (cases "merge_loaded glb tm w'") (simp add: convert_glb_to_obj_def)
next
  case (export_failed tm merged out s)
  then have "fst (merge_loaded glb tm w') = Some merged"
    using merge_loaded_fst [of glb tm w w'] by simp
  with export_failed show ?thesis
    by (cases "merge_loaded glb tm w'") (simp add: convert_glb_to_obj_def export_obj_def)
next
  case (exported tm merged out s)
  then have "fst (merge_loaded glb tm w') = Some merged"
    using merge_loaded_fst [of glb tm w w'] by simp
  with exported show ?thesis
    by (cases "merge_loaded glb tm w'") (simp add: convert_glb_to_obj_def export_obj_def)
qed

lemma convert_effect:
  assumes "convert_glb_to_obj ev glb obj w = (r, w')"
  shows "dirs w' = dirs w \<and> saves (log w') = saves (log w)"
  using assms
  by (cases ev glb obj w rule: convert_cases) (auto simp: py_print_def)

lemma convert_none_effect:
  assumes "convert_glb_to_obj ev glb obj w = (Inr None, w')"
  shows "files w' = files w \<and> dirs w' = dirs w \<and> saves (log w') = saves (log w) \<and>
         exports (log w') = exports (log w)"
  using assms
  by (cases ev glb obj w rule: convert_cases) (auto simp: py_print_def)

lemma convert_scale:
  assumes "convert_glb_to_obj ev glb obj w = (Inr (Some s), w')"
  shows "\<exists>tm merged ext. trimesh_load ev glb = Some tm \<and>
           fst (merge_loaded glb tm w) = Some merged \<and>
           extents merged = Inr ext \<and> s = max3 ext \<and> 0 \<le> s"
proof (cases ev glb obj w rule: convert_cases)
  case (exported tm merged out s')
  with assms have n: "normalize_mesh merged = Inr (out, s)"
    by simp
  then obtain ext where e: "extents merged = Inr ext" "s = max3 ext"
    by (auto simp: normalize_mesh_def Let_def split: sum.splits)
  with max3_nonneg [OF e(1)] exported(1,2) show ?thesis
    by blast
qed (use assms in simp_all)

lemma add_record_returns:
  assumes "add_record fp idx oid g s data w = (Inr data', w')"
  shows "\<exists>xs i. data = JList xs \<and> find_next_available_id data = Inr i \<and>
           data' = JList (xs @ [new_record i oid g s]) \<and>
           (if idx mod 250 = 0 then save_to_json fp data' w = (Inr (), w') else w' = w)"
proof -
  from assms obtain i where i: "find_next_available_id data = Inr i"
    by (auto simp: add_record_def split: sum.splits)
  from assms i obtain d where d: "py_append data (new_record i oid g s) = Inr d"
    by (auto simp: add_record_def split: sum.splits)
  then obtain xs where xs: "data = JList xs" "d = JList (xs @ [new_record i oid g s])"
    by (cases data) auto
  from assms i d have "data' = d \<and> (if idx mod 250 = 0 then save_to_json fp d w = (Inr (), w') else w' = w)"
    by (auto simp: add_record_def split: sum.splits prod.splits if_splits)
  with i xs show ?thesis by auto
qed

lemma process_item_returns:
  assumes "process_item ev base fp em idx oid path data w = (Inr data', w')"
  obtains (skipped) "JStr oid \<in> set em" "data' = data" "w' = w"
  | (failed) g w2 where "JStr oid \<notin> set em" "github_id_of path = Inr g"
      "os_path_dirname (obj_path_of base g oid) \<noteq> []"
      "convert_glb_to_obj ev path (obj_path_of base g oid)
         (w\<lparr>dirs := insert (os_path_dirname (obj_path_of base g oid)) (dirs w)\<rparr>) = (Inr None, w2)"
      "data' = data" "w' = py_print (path @ '' could not be converted to .obj'') w2"
  | (added) g s w2 where "JStr oid \<notin> set em" "github_id_of path = Inr g"
      "os_path_dirname (obj_path_of base g oid) \<noteq> []"
      "convert_glb_to_obj ev path (obj_path_of base g oid)
         (w\<lparr>dirs := insert (os_path_dirname (obj_path_of base g oid)) (dirs w)\<rparr>) = (Inr (Some s), w2)"
      "add_record fp idx oid g s data w2 = (Inr data', w')"
proof (cases "JStr oid \<in> set em")
  case True
  with assms show ?thesis
    by (intro skipped) (simp_all add: process_item_def)
next
  case new: False
  show ?thesis
  proof (cases "github_id_of path")
    case (Inl e)
    with assms new show ?thesis
      by (simp add: process_item_def)
  next
    case (Inr g)
    let ?obj = "obj_path_of base g oid"
    let ?dir = "os_path_dirname ?obj"
    let ?w1 = "w\<lparr>dirs := insert ?dir (dirs w)\<rparr>"
    have dir: "?dir \<noteq> []"
      using assms new Inr by (auto simp: process_item_def Let_def os_makedirs_def)
    obtain r w2 where c: "convert_glb_to_obj ev path ?obj ?w1 = (r, w2)"
      by (cases "convert_glb_to_obj ev path ?obj ?w1")
    have body: "process_item ev base fp em idx oid path data w =
        (case r of
           Inl e \<Rightarrow> (Inl e, w2)
         | Inr None \<Rightarrow> (Inr data, py_print (path @ '' could not be converted to .obj'') w2)
         | Inr (Some s) \<Rightarrow> add_record fp idx oid g s data w2)"
      using new Inr dir c
      by (simp add: process_item_def Let_def os_makedirs_def split: sum.splits option.splits)
    show ?thesis
    proof (cases r)
      case (Inl e)
      with assms body show ?thesis by simp
    next
      case (Inr res)
      show ?thesis
      proof (cases res)
        case None
        with assms body \<open>r = Inr res\<close> have "data' = data"
          "w' = py_print (path @ '' could not be converted to .obj'') w2"
          by simp_all
        with new \<open>github_id_of path = Inr g\<close> dir c \<open>r = Inr res\<close> None show ?thesis
          by (intro failed [of g w2]) simp_all
      next
        case (Some s)
        with assms body \<open>r = Inr res\<close>
        have "add_record fp idx oid g s data w2 = (Inr data', w')"
          by simp
        with new \<open>github_id_of path = Inr g\<close> dir c \<open>r = Inr res\<close> Some show ?thesis
          by (intro added [of g s w2]) simp_all
      qed
    qed
  qed
qed

subsection \<open>The example assets\<close>

lemma normalize_slab: "normalize_mesh slab_mesh = Inr (slab_normalized, 4)"
  using normalize_mesh_scaled [OF extents_slab] by (simp add: slab_normalized_def)

lemma normalize_point: "normalize_mesh point_mesh = Inr (origin_mesh, 0)"
  using normalize_mesh_degenerate [OF extents_point] by (simp add: centroid_point translate_point)


lemma convert_point:
  "convert_glb_to_obj sound_env ''/dl/g2/point.glb'' obj w =
     (Inr (Some 0), w\<lparr>files := (files w)(obj \<mapsto> Obj_text origin_mesh),
                       log := log w @ [Exported obj origin_mesh]\<rparr>)"
  by (rule convert_exports [where merged = point_mesh and tm = "Single point_mesh" and ?w1.0 = w])
    (simp_all add: sound_env_def example_load_def merge_loaded_def normalize_point)

lemma convert_cloud:
  "convert_glb_to_obj sound_env ''/dl/g3/cloud.glb'' obj w =
     (Inr None, py_print ''Skipping /dl/g3/cloud.glb as it is not a valid Trimesh'' w)"
  by (simp add: convert_glb_to_obj_def sound_env_def example_load_def merge_loaded_def)

lemma convert_missing:
  "convert_glb_to_obj sound_env ''/dl/g9/missing.glb'' obj w = (Inr None, w)"
  by (simp add: convert_glb_to_obj_def sound_env_def example_load_def)

lemma convert_slab_faulty:
  "convert_glb_to_obj faulty_env ''/dl/g1/slab.glb'' obj w = (Inl ExportError, w)"
  by (simp add: convert_glb_to_obj_def faulty_env_def example_load_def merge_loaded_def
      normalize_slab export_obj_def)

lemma example_github_ids:
  "github_id_of ''/dl/g1/slab.glb'' = Inr ''g1''"
  "github_id_of ''/dl/g2/point.glb'' = Inr ''g2''"
  "github_id_of ''/dl/g3/cloud.glb'' = Inr ''g3''"
  "github_id_of ''/dl/g9/missing.glb'' = Inr ''g9''"
  by (simp_all add: github_id_of_def)

lemmas path_defs = os_path_dirname_def obj_path_of_def os_path_join_def join2_def
  starts_with_slash_def ends_with_slash_def is_slash_def

lemma example_obj_paths:
  "obj_path_of example_base ''g1'' ''u1'' = ''/out/objs/g1/u1/model_scaled.obj''"
  "obj_path_of example_base ''g2'' ''u2'' = ''/out/objs/g2/u2/model_scaled.obj''"
  "obj_path_of example_base ''g3'' ''u3'' = ''/out/objs/g3/u3/model_scaled.obj''"
  "obj_path_of example_base ''g9'' ''u9'' = ''/out/objs/g9/u9/model_scaled.obj''"
  by (simp_all add: path_defs example_base_def)

lemma example_dirs:
  "os_path_dirname ''/out/objs/g1/u1/model_scaled.obj'' = ''/out/objs/g1/u1''"
  "os_path_dirname ''/out/objs/g2/u2/model_scaled.obj'' = ''/out/objs/g2/u2''"
  "os_path_dirname ''/out/objs/g3/u3/model_scaled.obj'' = ''/out/objs/g3/u3''"
  "os_path_dirname ''/out/objs/g9/u9/model_scaled.obj'' = ''/out/objs/g9/u9''"
  "os_path_dirname example_manifest = ''/out''"
  by (simp_all add: path_defs example_manifest_def)

lemma first_free_empty: "first_free [] 0 = 0"
  by (subst first_free.simps) (simp add: int_in_def)

lemma next_id_empty: "find_next_available_id (JList []) = Inr 0"
  by (simp add: find_next_available_id_def key_set_def first_free_empty)


lemma process_missing_first:
  "process_item sound_env example_base example_manifest [] 0 ''u9'' ''/dl/g9/missing.glb''
     (JList []) empty_world =
   (Inr (JList []),
    \<lparr>files = (\<lambda>p. None), dirs = {''/out/objs/g9/u9''},
     log = [Printed ''/dl/g9/missing.glb could not be converted to .obj'']\<rparr>)"
  by (simp add: process_item_def example_github_ids example_obj_paths example_dirs
      os_makedirs_def convert_missing py_print_def empty_world_def Let_def)

lemma empty_world_simps [simp]:
  "files empty_world = (\<lambda>p. None)" "dirs empty_world = {}" "log empty_world = []"
  by (simp_all add: empty_world_def)

lemma process_slab_faulty:
  "process_item faulty_env example_base example_manifest [] 0 ''u1'' ''/dl/g1/slab.glb''
     (JList []) empty_world =
   (Inl ExportError, \<lparr>files = (\<lambda>p. None), dirs = {''/out/objs/g1/u1''}, log = []\<rparr>)"
  by (simp add: process_item_def example_github_ids example_obj_paths example_dirs
      os_makedirs_def convert_slab_faulty Let_def)

subsection \<open>Checkpoints\<close>




subsection \<open>The save after the loop\<close>

text \<open>
  Claim C7, as the code has it: when the manifest loads and the loop returns,
  \<^verbatim>\<open>update_json\<close> is the call of \<^verbatim>\<open>save_to_json\<close> on the data the loop ended with, in
  the world the loop left; the call is unconditional. When the manifest path has a
  directory part the call returns, the manifest file then holds exactly that data, and
  the log has one more save.
\<close>

theorem final_save_after_loop:
  assumes "load_existing_json w fp = Inr data0"
    and "key_set ''objaverse_id'' data0 = Inr em"
    and "run_loop ev base fp em 0 reqs data0 w = (Inr data, w1)"
  shows "update_json ev reqs base fp w = save_to_json fp data w1 \<and>
         (os_path_dirname fp \<noteq> [] \<longrightarrow>
            fst (update_json ev reqs base fp w) = Inr () \<and>
            files (snd (update_json ev reqs base fp w)) fp = Some (Json_text data) \<and>
            saves (log (snd (update_json ev reqs base fp w))) = saves (log w1) @ [(fp, data)])"
proof -
  have "update_json ev reqs base fp w = save_to_json fp data w1"
    using assms by (simp add: update_json_def)
  then show ?thesis
    by (simp add: save_to_json_eq)
qed

lemma load_missing_manifest: "load_existing_json empty_world p = Inr (JList [])"
  by (simp add: load_existing_json_def os_path_exists_def empty_world_def)

lemma key_set_empty: "key_set k (JList []) = Inr []"
  by (simp add: key_set_def)

lemma loop_missing_only:
  "run_loop sound_env example_base example_manifest [] 0 [(''u9'', ''/dl/g9/missing.glb'')]
     (JList []) empty_world =
   (Inr (JList []),
    \<lparr>files = (\<lambda>p. None), dirs = {''/out/objs/g9/u9''},
     log = [Printed ''/dl/g9/missing.glb could not be converted to .obj'']\<rparr>)"
  by (simp add: process_missing_first)

text \<open>A run without requests, and a run whose only asset fails to load.\<close>

theorem final_save_witness:
  "fst (update_json sound_env [] example_base example_manifest empty_world) = Inr () \<and>
   files (snd (update_json sound_env [] example_base example_manifest empty_world))
     example_manifest = Some (Json_text (JList [])) \<and>
   files (snd (update_json sound_env [(''u9'', ''/dl/g9/missing.glb'')] example_base
                 example_manifest empty_world)) example_manifest = Some (Json_text (JList [])) \<and>
   saves (log (snd (update_json sound_env [(''u9'', ''/dl/g9/missing.glb'')] example_base
                      example_manifest empty_world))) = [(example_manifest, JList [])]"
proof -
  have none: "run_loop sound_env example_base example_manifest [] 0 [] (JList []) empty_world
                = (Inr (JList []), empty_world)"
    by simp
  have dir: "os_path_dirname example_manifest \<noteq> []"
    by (simp add: example_dirs)
  from final_save_after_loop [OF load_missing_manifest key_set_empty none,
        THEN conjunct2, rule_format, OF dir]
    final_save_after_loop [OF load_missing_manifest key_set_empty loop_missing_only,
        THEN conjunct2, rule_format, OF dir]
  show ?thesis
    by simp
qed

text \<open>
  The claim as stated, that after every run whose loop completes the durable manifest
  holds the final data, fails for a manifest path without a directory part: the loop over
  no requests returns, the save is called, \<^verbatim>\<open>os.makedirs\<close> raises on the empty directory
  name, and no manifest is written.
\<close>

theorem bare_manifest_name_counterexample:
  "run_loop sound_env example_base ''objaverse_models.json'' [] 0 [] (JList []) empty_world
     = (Inr (JList []), empty_world) \<and>
   update_json sound_env [] example_base ''objaverse_models.json'' empty_world
     = (Inl FileNotFoundError, empty_world) \<and>
   files empty_world ''objaverse_models.json'' = None"
  by (simp add: update_json_def load_missing_manifest key_set_empty save_to_json_eq
      os_path_dirname_def is_slash_def)

subsection \<open>Loops that return\<close>

lemma run_loop_Cons_returns:
  assumes "run_loop ev base fp em idx ((oid, path) # rest) data w = (Inr data', w')"
  obtains d1 w1 where "process_item ev base fp em idx oid path data w = (Inr d1, w1)"
    and "run_loop ev base fp em (Suc idx) rest d1 w1 = (Inr data', w')"
proof -
  obtain r w1 where p: "process_item ev base fp em idx oid path data w = (r, w1)"
    by (cases "process_item ev base fp em idx oid path data w")
  show ?thesis
  proof (cases r)
    case (Inl e)
    with assms p show ?thesis by simp
  next
    case (Inr d1)
    with assms p that [of d1 w1] show ?thesis by simp
  qed
qed

lemma save_to_json_dirs: "save_to_json fp data w = (r, w') \<Longrightarrow> dirs w \<subseteq> dirs w'"
  by (auto simp: save_to_json_eq split: if_splits)

subsection \<open>The output directory\<close>

lemma join2_nonempty: "p \<noteq> [] \<Longrightarrow> join2 p b \<noteq> []"
  by (cases b) (auto simp: join2_def starts_with_slash_def)

lemma join2_objs_nonempty: "join2 base ''objs'' \<noteq> []"
  by (simp add: join2_def starts_with_slash_def)

lemma dirname_nonempty:
  assumes "head \<noteq> []"
  shows "(if list_all is_slash head then head else rev (dropWhile is_slash (rev head))) \<noteq> []"
proof (cases "list_all is_slash head")
  case True
  with assms show ?thesis by simp
next
  case False
  then have "\<not> (\<forall>x \<in> set (rev head). is_slash x)"
    by (simp add: list_all_iff)
  then have "dropWhile is_slash (rev head) \<noteq> []"
    by (simp add: dropWhile_eq_Nil_conv)
  with False show ?thesis by simp
qed

lemma dirname_of_head:
  assumes "rev (dropWhile (\<lambda>c. \<not> is_slash c) (rev p)) = head" and "head \<noteq> []"
  shows "os_path_dirname p \<noteq> []"
  unfolding os_path_dirname_def Let_def assms(1)
  using dirname_nonempty [OF assms(2)] assms(2) by simp

lemma dirname_join2_file:
  assumes "q \<noteq> []" and ns: "\<And>c. c \<in> set m \<Longrightarrow> \<not> is_slash c"
    and st: "\<not> starts_with_slash m"
  shows "os_path_dirname (join2 q m) \<noteq> []"
proof (cases "ends_with_slash q")
  case True
  then obtain c cs where r: "rev q = c # cs" "is_slash c"
    by (auto simp: ends_with_slash_def is_slash_def split: list.splits)
  have j: "join2 q m = q @ m"
    using True assms(1) st by (simp add: join2_def)
  have "dropWhile (\<lambda>c. \<not> is_slash c) (rev (q @ m))
          = dropWhile (\<lambda>c. \<not> is_slash c) (rev q)"
    unfolding rev_append by (rule dropWhile_append2) (simp add: ns)
  also have "\<dots> = rev q"
    using r by simp
  finally have "rev (dropWhile (\<lambda>c. \<not> is_slash c) (rev (q @ m))) = q"
    by simp
  then show ?thesis
    unfolding j using assms(1) by (rule dirname_of_head)
next
  case False
  have j: "join2 q m = (q @ ''/'') @ m"
    using False assms(1) st by (simp add: join2_def)
  have "dropWhile (\<lambda>c. \<not> is_slash c) (rev ((q @ ''/'') @ m))
          = dropWhile (\<lambda>c. \<not> is_slash c) (rev (q @ ''/''))"
    unfolding rev_append [of "q @ ''/''"] by (rule dropWhile_append2) (simp add: ns)
  also have "\<dots> = rev (q @ ''/'')"
    by (simp add: is_slash_def)
  finally have "rev (dropWhile (\<lambda>c. \<not> is_slash c) (rev ((q @ ''/'') @ m))) = q @ ''/''"
    by simp
  then show ?thesis
    unfolding j by (rule dirname_of_head) simp
qed

lemma obj_dir_nonempty: "os_path_dirname (obj_path_of base g oid) \<noteq> []"
proof -
  have "join2 (join2 (join2 base ''objs'') g) oid \<noteq> []"
    by (intro join2_nonempty join2_objs_nonempty)
  then show ?thesis
    unfolding obj_path_of_def os_path_join_def foldl.simps
    by (rule dirname_join2_file) (auto simp: is_slash_def starts_with_slash_def)
qed

lemma add_record_dirs_any: "dirs w \<subseteq> dirs (snd (add_record fp idx oid g s data w))"
proof (cases "find_next_available_id data")
  case (Inl e)
  then show ?thesis by (simp add: add_record_def)
next
  case (Inr i)
  show ?thesis
  proof (cases "py_append data (new_record i oid g s)")
    case (Inl e)
    with Inr show ?thesis by (simp add: add_record_def)
  next
    case d: (Inr d)
    show ?thesis
    proof (cases "idx mod 250 = 0")
      case True
      obtain r w1 where sv: "save_to_json fp d w = (r, w1)"
        by (cases "save_to_json fp d w")
      from save_to_json_dirs [OF sv] have "dirs w \<subseteq> dirs w1" .
      with Inr d True sv show ?thesis
        by (cases r) (simp_all add: add_record_def)
    next
      case False
      with Inr d show ?thesis by (simp add: add_record_def)
    qed
  qed
qed

lemma process_item_new:
  assumes "JStr oid \<notin> set em" and "github_id_of path = Inr g"
    and "convert_glb_to_obj ev path (obj_path_of base g oid)
           (w\<lparr>dirs := insert (os_path_dirname (obj_path_of base g oid)) (dirs w)\<rparr>) = (r, w2)"
  shows "process_item ev base fp em idx oid path data w =
           (case r of
              Inl e \<Rightarrow> (Inl e, w2)
            | Inr None \<Rightarrow> (Inr data, py_print (path @ '' could not be converted to .obj'') w2)
            | Inr (Some s) \<Rightarrow> add_record fp idx oid g s data w2)"
  using assms obj_dir_nonempty [of base g oid]
  by (simp add: process_item_def Let_def os_makedirs_def split: sum.splits option.splits)

lemma process_item_dirs_any:
  "dirs w \<subseteq> dirs (snd (process_item ev base fp em idx oid path data w)) \<and>
   (JStr oid \<notin> set em \<longrightarrow> github_id_of path = Inr g \<longrightarrow>
      os_path_dirname (obj_path_of base g oid)
        \<in> dirs (snd (process_item ev base fp em idx oid path data w)))"
proof (cases "JStr oid \<in> set em")
  case True
  then show ?thesis by (simp add: process_item_def)
next
  case new: False
  show ?thesis
  proof (cases "github_id_of path")
    case (Inl e)
    with new show ?thesis by (simp add: process_item_def)
  next
    case (Inr g')
    let ?dir = "os_path_dirname (obj_path_of base g' oid)"
    let ?w1 = "w\<lparr>dirs := insert ?dir (dirs w)\<rparr>"
    obtain r w2 where c: "convert_glb_to_obj ev path (obj_path_of base g' oid) ?w1 = (r, w2)"
      by (cases "convert_glb_to_obj ev path (obj_path_of base g' oid) ?w1")
    from convert_effect [OF c] have d2: "dirs w2 = insert ?dir (dirs w)"
      by simp
    note body = process_item_new [OF new Inr c, of fp idx data]
    have "insert ?dir (dirs w) \<subseteq> dirs (snd (process_item ev base fp em idx oid path data w))"
    proof (cases r)
      case (Inl e)
      with body d2 show ?thesis by simp
    next
      case res: (Inr res)
      show ?thesis
      proof (cases res)
        case None
        with body res d2 show ?thesis by (simp add: py_print_def)
      next
        case (Some s)
        with body res d2 add_record_dirs_any [of w2 fp idx oid g' s data] show ?thesis
          by simp
      qed
    qed
    with Inr show ?thesis by auto
  qed
qed

lemma run_loop_dirs_any: "dirs w \<subseteq> dirs (snd (run_loop ev base fp em idx reqs data w))"
proof (induction reqs arbitrary: idx data w)
  case Nil
  show ?case by simp
next
  case (Cons req rest)
  obtain oid path where req: "req = (oid, path)" by (cases req)
  obtain r w1 where p: "process_item ev base fp em idx oid path data w = (r, w1)"
    by (cases "process_item ev base fp em idx oid path data w")
  from process_item_dirs_any [of w ev base fp em idx oid path data] p
  have s1: "dirs w \<subseteq> dirs w1" by simp
  show ?case
  proof (cases r)
    case (Inl e)
    with p s1 req show ?thesis by simp
  next
    case (Inr d1)
    with p s1 req Cons.IH [of w1 "Suc idx" d1] show ?thesis by auto
  qed
qed

text \<open>
  Claim C10: a round for an identifier that is not in \<open>existing_map\<close> makes the output
  directory, the directory of \<open>base/objs/github_id/objaverse_id/model_scaled.obj\<close>, before it
  attempts the conversion. Whatever the conversion does, return a scale, return
  \<^verbatim>\<open>None\<close> or raise, the directory exists after the round, and it still exists when the
  loop that goes on from this round ends, by returning or by an exception. When the
  conversion returns \<^verbatim>\<open>None\<close> the round returns the data as it was: no record is added.
  The name of the directory is never empty, so making it cannot fail on the name.
\<close>

theorem output_directory_created:
  assumes "JStr oid \<notin> set em" and "github_id_of path = Inr g"
  shows "os_path_dirname (obj_path_of base g oid)
           \<in> dirs (snd (process_item ev base fp em idx oid path data w)) \<and>
         os_path_dirname (obj_path_of base g oid)
           \<in> dirs (snd (run_loop ev base fp em idx ((oid, path) # rest) data w)) \<and>
         (fst (convert_glb_to_obj ev path (obj_path_of base g oid) w) = Inr None \<longrightarrow>
            fst (process_item ev base fp em idx oid path data w) = Inr data)"
proof -
  let ?obj = "obj_path_of base g oid"
  let ?dir = "os_path_dirname ?obj"
  let ?w1 = "w\<lparr>dirs := insert ?dir (dirs w)\<rparr>"
  obtain r w1 where p: "process_item ev base fp em idx oid path data w = (r, w1)"
    by (cases "process_item ev base fp em idx oid path data w")
  from process_item_dirs_any [of w ev base fp em idx oid path data g] assms p
  have d1: "?dir \<in> dirs w1" by simp
  have "?dir \<in> dirs (snd (run_loop ev base fp em idx ((oid, path) # rest) data w))"
  proof (cases r)
    case (Inl e)
    with p d1 show ?thesis by simp
  next
    case (Inr d)
    with p d1 run_loop_dirs_any [of w1 ev base fp em "Suc idx" rest d] show ?thesis
      by auto
  qed
  moreover have "fst (process_item ev base fp em idx oid path data w) = Inr data"
    if "fst (convert_glb_to_obj ev path ?obj w) = Inr None"
  proof -
    obtain c w2 where c: "convert_glb_to_obj ev path ?obj ?w1 = (c, w2)"
      by (cases "convert_glb_to_obj ev path ?obj ?w1")
    have "c = Inr None"
      using convert_fst_indep [of ev path ?obj w ?w1] that c by simp
    with process_item_new [OF assms c, of fp idx data] show ?thesis by simp
  qed
  ultimately show ?thesis
    using d1 p by simp
qed

text \<open>
  A scene that holds a point cloud, whose conversion fails and adds no record, and an
  asset whose export raises: both directories exist after the round.
\<close>

theorem output_directory_witness:
  "''/out/objs/g3/u3'' \<in> dirs (snd (process_item sound_env example_base example_manifest [] 0
                                       ''u3'' ''/dl/g3/cloud.glb'' (JList []) empty_world)) \<and>
   fst (process_item sound_env example_base example_manifest [] 0
          ''u3'' ''/dl/g3/cloud.glb'' (JList []) empty_world) = Inr (JList []) \<and>
   ''/out/objs/g1/u1'' \<in> dirs (snd (process_item faulty_env example_base example_manifest [] 0
                                       ''u1'' ''/dl/g1/slab.glb'' (JList []) empty_world)) \<and>
   fst (process_item faulty_env example_base example_manifest [] 0
          ''u1'' ''/dl/g1/slab.glb'' (JList []) empty_world) = Inl ExportError"
proof -
  have n3: "JStr ''u3'' \<notin> set []" and n1: "JStr ''u1'' \<notin> set []"
    by simp_all
  have c: "fst (convert_glb_to_obj sound_env ''/dl/g3/cloud.glb''
                  (obj_path_of example_base ''g3'' ''u3'') empty_world) = Inr None"
    by (simp add: convert_cloud)
  from output_directory_created [OF n3 example_github_ids(3), of example_base sound_env
      example_manifest 0 "JList []" empty_world "[]"] c
    output_directory_created [OF n1 example_github_ids(1), of example_base faulty_env
      example_manifest 0 "JList []" empty_world "[]"]
  show ?thesis
    by (simp add: example_obj_paths example_dirs process_slab_faulty)
qed

subsection \<open>The records a run appends\<close>

lemma process_item_appends:
  assumes "process_item ev base fp em idx oid path (JList xs) w = (Inr data', w')"
  shows "data' = JList xs \<or>
         (\<exists>i g s tm merged ext. data' = JList (xs @ [new_record i oid g s]) \<and>
            trimesh_load ev path = Some tm \<and> fst (merge_loaded path tm w) = Some merged \<and>
            extents merged = Inr ext \<and> s = max3 ext \<and> 0 \<le> s)"
  using assms
proof (cases rule: process_item_returns)
  case (added g s w2)
  let ?w1 = "w\<lparr>dirs := insert (os_path_dirname (obj_path_of base g oid)) (dirs w)\<rparr>"
  from convert_scale [OF added(4)] obtain tm merged ext
    where c: "trimesh_load ev path = Some tm" "fst (merge_loaded path tm ?w1) = Some merged"
      "extents merged = Inr ext" "s = max3 ext" "0 \<le> s"
    by blast
  from c(2) have m: "fst (merge_loaded path tm w) = Some merged"
    using merge_loaded_fst [of path tm w ?w1] by simp
  from add_record_returns [OF added(5)] obtain i
    where "data' = JList (xs @ [new_record i oid g s])"
    by auto
  with c m show ?thesis by blast
qed simp_all

lemma run_loop_appends:
  assumes step: "\<And>idx oid path xs w d1 w1.
      (oid, path) \<in> A \<Longrightarrow>
      process_item ev base fp em idx oid path (JList xs) w = (Inr d1, w1) \<Longrightarrow>
      d1 = JList xs \<or> (\<exists>r. d1 = JList (xs @ [r]) \<and> P r)"
    and "set reqs \<subseteq> A"
    and "run_loop ev base fp em idx reqs (JList xs) w = (Inr data', w')"
  shows "\<exists>ys. data' = JList (xs @ ys) \<and> (\<forall>r \<in> set ys. P r)"
  using assms(2,3)
proof (induction reqs arbitrary: idx xs w)
  case Nil
  then show ?case by (intro exI [of _ "[]"]) auto
next
  case (Cons req rest)
  obtain oid path where req: "req = (oid, path)" by (cases req)
  from Cons.prems(2) [unfolded req] obtain d1 w1
    where p: "process_item ev base fp em idx oid path (JList xs) w = (Inr d1, w1)"
      and l: "run_loop ev base fp em (Suc idx) rest d1 w1 = (Inr data', w')"
    by (rule run_loop_Cons_returns)
  from Cons.prems(1) req have mem: "(oid, path) \<in> A" and sub: "set rest \<subseteq> A"
    by simp_all
  from step [OF mem p] show ?case
  proof
    assume "d1 = JList xs"
    with Cons.IH [OF sub] l show ?thesis by simp
  next
    assume "\<exists>r. d1 = JList (xs @ [r]) \<and> P r"
    then obtain r where r: "d1 = JList (xs @ [r])" "P r"
      by blast
    from Cons.IH [OF sub l [unfolded r(1)]] obtain ys
      where ys: "data' = JList ((xs @ [r]) @ ys)" "\<forall>r \<in> set ys. P r"
      by blast
    show ?thesis
    proof (intro exI conjI)
      show "data' = JList (xs @ (r # ys))" using ys(1) by simp
      show "\<forall>r \<in> set (r # ys). P r" using ys(2) r(2) by simp
    qed
  qed
qed

text \<open>
  Claim C2, as the code has it: after a run that returns on a manifest that was a list,
  the manifest file holds the records it held before followed by the records of the run,
  and each record of the run carries as \<open>norm_scale\<close> the largest bounding-box extent of
  the merged mesh of its request, which is not negative. It is zero for a zero-extent
  mesh: such a mesh is converted and recorded like any other.
\<close>

theorem appended_records_scale_nonnegative:
  assumes "load_existing_json w fp = Inr (JList xs)"
    and "update_json ev reqs base fp w = (Inr (), w')"
  shows "\<exists>ys. files w' fp = Some (Json_text (JList (xs @ ys))) \<and>
           (\<forall>r \<in> set ys. \<exists>i oid path g s tm merged ext.
               r = new_record i oid g s \<and> (oid, path) \<in> set reqs \<and>
               trimesh_load ev path = Some tm \<and> fst (merge_loaded path tm w) = Some merged \<and>
               extents merged = Inr ext \<and> s = max3 ext \<and> 0 \<le> s)"
proof -
  define P where "P = (\<lambda>r. \<exists>i oid path g s tm merged ext.
               r = new_record i oid g s \<and> (oid, path) \<in> set reqs \<and>
               trimesh_load ev path = Some tm \<and> fst (merge_loaded path tm w) = Some merged \<and>
               extents merged = Inr ext \<and> s = max3 ext \<and> 0 \<le> s)"
  have step: "d1 = JList zs \<or> (\<exists>r. d1 = JList (zs @ [r]) \<and> P r)"
    if mem: "(oid, path) \<in> set reqs"
      and p: "process_item ev base fp em idx oid path (JList zs) v = (Inr d1, v1)"
    for em idx oid path zs v d1 v1
    using process_item_appends [OF p]
  proof
    assume "d1 = JList zs"
    then show ?thesis by simp
  next
    assume "\<exists>i g s tm merged ext. d1 = JList (zs @ [new_record i oid g s]) \<and>
            trimesh_load ev path = Some tm \<and> fst (merge_loaded path tm v) = Some merged \<and>
            extents merged = Inr ext \<and> s = max3 ext \<and> 0 \<le> s"
    then obtain i g s tm merged ext where d1: "d1 = JList (zs @ [new_record i oid g s])"
      and c: "trimesh_load ev path = Some tm" "fst (merge_loaded path tm v) = Some merged"
        "extents merged = Inr ext" "s = max3 ext" "0 \<le> s"
      by blast
    from c(2) have "fst (merge_loaded path tm w) = Some merged"
      using merge_loaded_fst [of path tm w v] by simp
    with mem c have "P (new_record i oid g s)"
      unfolding P_def by blast
    with d1 show ?thesis by blast
  qed
  from assms obtain em where em: "key_set ''objaverse_id'' (JList xs) = Inr em"
    by (auto simp: update_json_def split: sum.splits)
  obtain r w1 where l: "run_loop ev base fp em 0 reqs (JList xs) w = (r, w1)"
    by (cases "run_loop ev base fp em 0 reqs (JList xs) w")
  show ?thesis
  proof (cases r)
    case (Inl e)
    with assms em l show ?thesis by (simp add: update_json_def)
  next
    case (Inr data)
    with assms em l have s: "save_to_json fp data w1 = (Inr (), w')"
      by (simp add: update_json_def)
    then have f: "files w' fp = Some (Json_text data)"
      by (auto simp: save_to_json_eq split: if_splits)
    have "\<exists>ys. data = JList (xs @ ys) \<and> (\<forall>r \<in> set ys. P r)"
    proof (rule run_loop_appends [where A = "set reqs" and P = P])
      show "set reqs \<subseteq> set reqs"
        by simp
      show "run_loop ev base fp em 0 reqs (JList xs) w = (Inr data, w1)"
        using l Inr by simp
      show "d1 = JList zs \<or> (\<exists>r. d1 = JList (zs @ [r]) \<and> P r)"
        if "(oid, path) \<in> set reqs"
          and "process_item ev base fp em idx oid path (JList zs) v = (Inr d1, v1)"
        for idx oid path zs v d1 v1
        using that by (rule step)
    qed
    then obtain ys where "data = JList (xs @ ys)" "\<forall>r \<in> set ys. P r"
      by blast
    with f show ?thesis
      unfolding P_def by blast
  qed
qed

lemma process_point_first:
  "process_item sound_env example_base example_manifest [] 0 ''u2'' ''/dl/g2/point.glb''
     (JList []) empty_world =
   (Inr (JList [new_record 0 ''u2'' ''g2'' 0]),
    \<lparr>files = ((\<lambda>p. None)(''/out/objs/g2/u2/model_scaled.obj'' \<mapsto> Obj_text origin_mesh))
              (example_manifest \<mapsto> Json_text (JList [new_record 0 ''u2'' ''g2'' 0])),
     dirs = {''/out'', ''/out/objs/g2/u2''},
     log = [Exported ''/out/objs/g2/u2/model_scaled.obj'' origin_mesh,
            Saved example_manifest (JList [new_record 0 ''u2'' ''g2'' 0])]\<rparr>)"
  by (simp add: process_item_def example_github_ids example_obj_paths example_dirs
      os_makedirs_def convert_point add_record_def next_id_empty save_to_json_eq Let_def)

lemma run_point_only:
  "update_json sound_env [(''u2'', ''/dl/g2/point.glb'')] example_base example_manifest
     empty_world =
   (Inr (),
    \<lparr>files = ((\<lambda>p. None)(''/out/objs/g2/u2/model_scaled.obj'' \<mapsto> Obj_text origin_mesh))
              (example_manifest \<mapsto> Json_text (JList [new_record 0 ''u2'' ''g2'' 0])),
     dirs = {''/out'', ''/out/objs/g2/u2''},
     log = [Exported ''/out/objs/g2/u2/model_scaled.obj'' origin_mesh,
            Saved example_manifest (JList [new_record 0 ''u2'' ''g2'' 0]),
            Saved example_manifest (JList [new_record 0 ''u2'' ''g2'' 0])]\<rparr>)"
  by (simp add: update_json_def load_missing_manifest key_set_empty process_point_first
      save_to_json_eq example_dirs insert_absorb)

text \<open>A run on the asset whose mesh is the triangle at one point.\<close>

theorem appended_records_witness:
  "\<exists>ys. files (snd (update_json sound_env [(''u2'', ''/dl/g2/point.glb'')] example_base
                      example_manifest empty_world)) example_manifest
           = Some (Json_text (JList ([] @ ys))) \<and>
        (\<forall>r \<in> set ys. \<exists>i oid path g s tm merged ext.
            r = new_record i oid g s \<and> (oid, path) \<in> set [(''u2'', ''/dl/g2/point.glb'')] \<and>
            trimesh_load sound_env path = Some tm \<and>
            fst (merge_loaded path tm empty_world) = Some merged \<and>
            extents merged = Inr ext \<and> s = max3 ext \<and> 0 \<le> s)"
  unfolding run_point_only snd_conv
  by (rule appended_records_scale_nonnegative [OF load_missing_manifest run_point_only])

text \<open>
  The claim as stated, that every record has a scale strictly greater than zero and
  that a zero-extent mesh gives no record, fails for the triangle at one point: the run
  returns and the manifest holds its record, with scale 0.
\<close>

theorem zero_scale_recorded_counterexample:
  "extents point_mesh = Inr (0, 0, 0) \<and>
   files (snd (update_json sound_env [(''u2'', ''/dl/g2/point.glb'')] example_base
                 example_manifest empty_world)) example_manifest
     = Some (Json_text (JList [new_record 0 ''u2'' ''g2'' 0])) \<and>
   py_getitem (new_record 0 ''u2'' ''g2'' 0) ''norm_scale'' = Inr (JFloat 0) \<and>
   \<not> (0::real) < 0"
  by (simp add: run_point_only extents_point new_record_def)

subsection \<open>A failing export\<close>

text \<open>
  Claim C1 says that a failing export is reported for its item and that the run goes on.
  The export is outside the \<^verbatim>\<open>try\<close> of \<^verbatim>\<open>convert_glb_to_obj\<close>, and \<^verbatim>\<open>update_json\<close> catches
  nothing: with two requests whose assets load and an export that raises, the exception
  of the first export leaves \<^verbatim>\<open>update_json\<close>. Nothing is printed, the second request is
  never reached (its directory is not made) and the manifest is not saved.
\<close>

theorem export_failure_aborts_run:
  "update_json faulty_env [(''u1'', ''/dl/g1/slab.glb''), (''u2'', ''/dl/g2/point.glb'')]
     example_base example_manifest empty_world =
   (Inl ExportError, \<lparr>files = (\<lambda>p. None), dirs = {''/out/objs/g1/u1''}, log = []\<rparr>)"
  by (simp add: update_json_def load_missing_manifest key_set_empty process_slab_faulty)

subsection \<open>Running twice\<close>

lemma collect_key_snoc:
  "collect_key k xs = Inr ks \<Longrightarrow> py_getitem item k = Inr v \<Longrightarrow> hashable v \<Longrightarrow>
     collect_key k (xs @ [item]) = Inr (ks @ [v])"
proof (induction xs arbitrary: ks)
  case Nil
  then show ?case by simp
next
  case (Cons x xs)
  from Cons.prems(1) obtain u us where u: "py_getitem x k = Inr u" "hashable u"
    "collect_key k xs = Inr us" "ks = u # us"
    by (auto split: sum.splits if_splits)
  from Cons.IH [OF u(3) Cons.prems(2,3)] u show ?case
    by simp
qed

lemma key_set_snoc_record:
  assumes "key_set ''objaverse_id'' (JList xs) = Inr ks"
  shows "key_set ''objaverse_id'' (JList (xs @ [new_record i oid g s])) = Inr (ks @ [JStr oid])"
proof -
  have "py_getitem (new_record i oid g s) ''objaverse_id'' = Inr (JStr oid)"
    by (simp add: new_record_def)
  with assms show ?thesis
    by (simp add: key_set_def collect_key_snoc)
qed

lemma process_item_known_or_failed:
  assumes "process_item ev base fp em idx oid path data w = (Inr d1, w1)"
    and "key_set ''objaverse_id'' data = Inr ks"
  shows "\<exists>ks1. key_set ''objaverse_id'' d1 = Inr ks1 \<and> set ks \<subseteq> set ks1 \<and>
           (JStr oid \<in> set em \<or> JStr oid \<in> set ks1 \<or> conversion_fails ev base oid path)"
  using assms(1)
proof (cases rule: process_item_returns)
  case skipped
  with assms(2) show ?thesis by auto
next
  case (failed g w2)
  let ?obj = "obj_path_of base g oid"
  let ?w1 = "w\<lparr>dirs := insert (os_path_dirname ?obj) (dirs w)\<rparr>"
  have "fst (convert_glb_to_obj ev path ?obj empty_world) = Inr None"
    using convert_fst_indep [of ev path ?obj empty_world ?w1] failed(4) by simp
  with failed(2,3) have "conversion_fails ev base oid path"
    by (simp add: conversion_fails_def)
  with failed(5) assms(2) show ?thesis by auto
next
  case (added g s w2)
  from add_record_returns [OF added(5)] obtain xs i
    where d: "data = JList xs" "d1 = JList (xs @ [new_record i oid g s])"
    by blast
  from key_set_snoc_record [OF assms(2) [unfolded d(1)]] d(2)
  have "key_set ''objaverse_id'' d1 = Inr (ks @ [JStr oid])"
    by simp
  then show ?thesis by auto
qed

lemma run_loop_known_or_failed:
  assumes "run_loop ev base fp em idx reqs data w = (Inr data', w')"
    and "key_set ''objaverse_id'' data = Inr ks"
  shows "\<exists>ks'. key_set ''objaverse_id'' data' = Inr ks' \<and> set ks \<subseteq> set ks' \<and>
           (\<forall>(oid, path) \<in> set reqs.
               JStr oid \<in> set em \<or> JStr oid \<in> set ks' \<or> conversion_fails ev base oid path)"
  using assms
proof (induction reqs arbitrary: idx data w ks)
  case Nil
  then show ?case by simp
next
  case (Cons req rest)
  obtain oid path where req: "req = (oid, path)" by (cases req)
  from Cons.prems(1) [unfolded req] obtain d1 w1
    where p: "process_item ev base fp em idx oid path data w = (Inr d1, w1)"
      and l: "run_loop ev base fp em (Suc idx) rest d1 w1 = (Inr data', w')"
    by (rule run_loop_Cons_returns)
  from process_item_known_or_failed [OF p Cons.prems(2)] obtain ks1
    where k1: "key_set ''objaverse_id'' d1 = Inr ks1" "set ks \<subseteq> set ks1"
      and h: "JStr oid \<in> set em \<or> JStr oid \<in> set ks1 \<or> conversion_fails ev base oid path"
    by blast
  from Cons.IH [OF l k1(1)] obtain ks'
    where k': "key_set ''objaverse_id'' data' = Inr ks'" "set ks1 \<subseteq> set ks'"
      and t: "\<forall>(oid, path) \<in> set rest.
               JStr oid \<in> set em \<or> JStr oid \<in> set ks' \<or> conversion_fails ev base oid path"
    by blast
  from h k'(2) have "JStr oid \<in> set em \<or> JStr oid \<in> set ks' \<or> conversion_fails ev base oid path"
    by auto
  with t k' k1(2) req show ?case
    by (intro exI [of _ ks']) auto
qed

lemma process_item_known:
  "JStr oid \<in> set em \<Longrightarrow> process_item ev base fp em idx oid path data w = (Inr data, w)"
  by (simp add: process_item_def)

lemma process_item_fails:
  assumes "JStr oid \<notin> set em" and "conversion_fails ev base oid path"
  shows "\<exists>w'. process_item ev base fp em idx oid path data w = (Inr data, w') \<and>
           files w' = files w \<and> saves (log w') = saves (log w) \<and>
           exports (log w') = exports (log w)"
proof -
  from assms(2) obtain g where g: "github_id_of path = Inr g"
    and dir: "os_path_dirname (obj_path_of base g oid) \<noteq> []"
    and c0: "fst (convert_glb_to_obj ev path (obj_path_of base g oid) empty_world) = Inr None"
    by (auto simp: conversion_fails_def split: sum.splits)
  let ?obj = "obj_path_of base g oid"
  let ?w1 = "w\<lparr>dirs := insert (os_path_dirname ?obj) (dirs w)\<rparr>"
  obtain r w2 where c: "convert_glb_to_obj ev path ?obj ?w1 = (r, w2)"
    by (cases "convert_glb_to_obj ev path ?obj ?w1")
  have "r = Inr None"
    using convert_fst_indep [of ev path ?obj empty_world ?w1] c0 c by simp
  with c have c': "convert_glb_to_obj ev path ?obj ?w1 = (Inr None, w2)"
    by simp
  have "process_item ev base fp em idx oid path data w =
          (Inr data, py_print (path @ '' could not be converted to .obj'') w2)"
    using assms(1) g dir c'
    by (simp add: process_item_def Let_def os_makedirs_def)
  moreover from convert_none_effect [OF c']
  have "files w2 = files w" "saves (log w2) = saves (log w)" "exports (log w2) = exports (log w)"
    by simp_all
  ultimately show ?thesis
    by (simp add: py_print_def)
qed

lemma run_loop_nothing_new:
  assumes "\<forall>(oid, path) \<in> set reqs. JStr oid \<in> set em \<or> conversion_fails ev base oid path"
  shows "\<exists>w'. run_loop ev base fp em idx reqs data w = (Inr data, w') \<and>
           files w' = files w \<and> saves (log w') = saves (log w) \<and>
           exports (log w') = exports (log w)"
  using assms
proof (induction reqs arbitrary: idx w)
  case Nil
  then show ?case by simp
next
  case (Cons req rest)
  obtain oid path where req: "req = (oid, path)" by (cases req)
  have "\<exists>w1. process_item ev base fp em idx oid path data w = (Inr data, w1) \<and>
           files w1 = files w \<and> saves (log w1) = saves (log w) \<and>
           exports (log w1) = exports (log w)"
  proof (cases "JStr oid \<in> set em")
    case True
    then show ?thesis by (simp add: process_item_known)
  next
    case False
    with Cons.prems req have "conversion_fails ev base oid path" by auto
    with False show ?thesis by (rule process_item_fails)
  qed
  then obtain w1 where p: "process_item ev base fp em idx oid path data w = (Inr data, w1)"
    and e: "files w1 = files w" "saves (log w1) = saves (log w)" "exports (log w1) = exports (log w)"
    by blast
  from Cons.prems have "\<forall>(oid, path) \<in> set rest. JStr oid \<in> set em \<or> conversion_fails ev base oid path"
    by simp
  from Cons.IH [OF this, of "Suc idx" w1] obtain w'
    where "run_loop ev base fp em (Suc idx) rest data w1 = (Inr data, w')"
      "files w' = files w1" "saves (log w') = saves (log w1)" "exports (log w') = exports (log w1)"
    by blast
  with p e req show ?case
    by simp
qed

text \<open>
  Claim C5: let a run return, and run \<^verbatim>\<open>update_json\<close> again with the same requests, assets
  and export faults, in the world the first run left. The second run loads the data the
  first run saved and builds \<open>existing_map\<close> from it. Every round of its loop for a request
  whose identifier is in that set leaves data and world as they are; its loop returns the
  data unchanged; the run is the save of that data after that loop, and it returns. Over
  the whole second run nothing is exported, the one manifest saved is the data of the
  first run, and every file, the manifest among them, is as the first run left it. The
  requests that the second run tries again are those whose conversion failed in the
  first, and it fails again.
\<close>

theorem rerun_adds_nothing:
  assumes "update_json ev reqs base fp w = (Inr (), w1)"
  shows "\<exists>data1 em1 wl w2.
           files w1 fp = Some (Json_text data1) \<and>
           load_existing_json w1 fp = Inr data1 \<and>
           key_set ''objaverse_id'' data1 = Inr em1 \<and>
           (\<forall>(oid, path) \<in> set reqs. JStr oid \<in> set em1 \<longrightarrow>
              (\<forall>idx data v. process_item ev base fp em1 idx oid path data v = (Inr data, v))) \<and>
           run_loop ev base fp em1 0 reqs data1 w1 = (Inr data1, wl) \<and>
           update_json ev reqs base fp w1 = save_to_json fp data1 wl \<and>
           update_json ev reqs base fp w1 = (Inr (), w2) \<and>
           files w2 = files w1 \<and>
           exports (log w2) = exports (log w1) \<and>
           saves (log w2) = saves (log w1) @ [(fp, data1)]"
proof -
  from assms obtain data0 where ld: "load_existing_json w fp = Inr data0"
    by (auto simp: update_json_def split: sum.splits)
  from assms ld obtain em0 where em0: "key_set ''objaverse_id'' data0 = Inr em0"
    by (auto simp: update_json_def split: sum.splits)
  obtain r wl0 where l: "run_loop ev base fp em0 0 reqs data0 w = (r, wl0)"
    by (cases "run_loop ev base fp em0 0 reqs data0 w")
  from assms ld em0 l obtain data1 where r: "r = Inr data1"
    by (cases r) (auto simp: update_json_def)
  from assms ld em0 l r have sv: "save_to_json fp data1 wl0 = (Inr (), w1)"
    by (simp add: update_json_def)
  then have dir: "os_path_dirname fp \<noteq> []"
    and w1: "w1 = wl0\<lparr>dirs := insert (os_path_dirname fp) (dirs wl0),
                       files := (files wl0)(fp \<mapsto> Json_text data1),
                       log := log wl0 @ [Saved fp data1]\<rparr>"
    by (auto simp: save_to_json_eq split: if_splits)
  from w1 have f1: "files w1 fp = Some (Json_text data1)"
    by simp
  from run_loop_known_or_failed [OF l [unfolded r] em0] obtain em1
    where em1: "key_set ''objaverse_id'' data1 = Inr em1" "set em0 \<subseteq> set em1"
      and cover: "\<forall>(oid, path) \<in> set reqs.
               JStr oid \<in> set em0 \<or> JStr oid \<in> set em1 \<or> conversion_fails ev base oid path"
    by blast
  from cover em1(2)
  have "\<forall>(oid, path) \<in> set reqs. JStr oid \<in> set em1 \<or> conversion_fails ev base oid path"
    by auto
  from run_loop_nothing_new [OF this, of fp 0 data1 w1] obtain wl
    where l2: "run_loop ev base fp em1 0 reqs data1 w1 = (Inr data1, wl)"
      and e2: "files wl = files w1" "exports (log wl) = exports (log w1)"
        "saves (log wl) = saves (log w1)"
    by blast
  have ld2: "load_existing_json w1 fp = Inr data1"
    using f1 by (simp add: load_existing_json_def os_path_exists_def)
  define w2 where "w2 = wl\<lparr>dirs := insert (os_path_dirname fp) (dirs wl),
                       files := (files wl)(fp \<mapsto> Json_text data1),
                       log := log wl @ [Saved fp data1]\<rparr>"
  have u2s: "update_json ev reqs base fp w1 = save_to_json fp data1 wl"
    using ld2 em1(1) l2 by (simp add: update_json_def)
  have u2: "update_json ev reqs base fp w1 = (Inr (), w2)"
    unfolding u2s using dir by (simp add: save_to_json_eq w2_def)
  have x2: "exports (log w2) = exports (log w1)"
    and s2: "saves (log w2) = saves (log w1) @ [(fp, data1)]"
    by (simp_all add: w2_def e2)
  have skip: "\<forall>(oid, path) \<in> set reqs. JStr oid \<in> set em1 \<longrightarrow>
      (\<forall>idx data v. process_item ev base fp em1 idx oid path data v = (Inr data, v))"
    by (simp add: process_item_known split: prod.splits)
  have "files w2 = (files w1)(fp \<mapsto> Json_text data1)"
    by (simp add: w2_def e2)
  also have "\<dots> = files w1"
    using f1 by (rule fun_upd_idem)
  finally have f2: "files w2 = files w1" .
  show ?thesis
  proof (rule exI [of _ data1], rule exI [of _ em1], rule exI [of _ wl], rule exI [of _ w2],
      intro conjI)
    show "update_json ev reqs base fp w1 = save_to_json fp data1 wl"
      by (rule u2s)
  qed (rule f1 ld2 em1(1) skip l2 u2 f2 x2 s2)+
qed

lemma process_missing:
  assumes "JStr ''u9'' \<notin> set em"
  shows "process_item sound_env example_base fp em idx ''u9'' ''/dl/g9/missing.glb'' data w =
           (Inr data, py_print ''/dl/g9/missing.glb could not be converted to .obj''
                        (w\<lparr>dirs := insert ''/out/objs/g9/u9'' (dirs w)\<rparr>))"
  using assms
  by (simp add: process_item_def example_github_ids example_obj_paths example_dirs
      os_makedirs_def convert_missing Let_def)

lemma run_point_and_missing:
  "\<exists>w1. update_json sound_env [(''u2'', ''/dl/g2/point.glb''), (''u9'', ''/dl/g9/missing.glb'')]
           example_base example_manifest empty_world = (Inr (), w1) \<and>
        files w1 example_manifest = Some (Json_text (JList [new_record 0 ''u2'' ''g2'' 0]))"
  by (simp add: update_json_def load_missing_manifest key_set_empty process_point_first
      process_missing save_to_json_eq example_dirs py_print_def)

text \<open>
  Two requests, one converted and one whose asset does not load: the second run returns,
  exports nothing and leaves the files as they are.
\<close>

theorem rerun_witness:
  "\<exists>w1 w2.
     update_json sound_env [(''u2'', ''/dl/g2/point.glb''), (''u9'', ''/dl/g9/missing.glb'')]
       example_base example_manifest empty_world = (Inr (), w1) \<and>
     files w1 example_manifest = Some (Json_text (JList [new_record 0 ''u2'' ''g2'' 0])) \<and>
     update_json sound_env [(''u2'', ''/dl/g2/point.glb''), (''u9'', ''/dl/g9/missing.glb'')]
       example_base example_manifest w1 = (Inr (), w2) \<and>
     files w2 = files w1 \<and> exports (log w2) = exports (log w1)"
proof -
  from run_point_and_missing obtain w1
    where r1: "update_json sound_env
        [(''u2'', ''/dl/g2/point.glb''), (''u9'', ''/dl/g9/missing.glb'')]
        example_base example_manifest empty_world = (Inr (), w1)"
      and f1: "files w1 example_manifest = Some (Json_text (JList [new_record 0 ''u2'' ''g2'' 0]))"
    by blast
  from rerun_adds_nothing [OF r1] obtain w2
    where "update_json sound_env
        [(''u2'', ''/dl/g2/point.glb''), (''u9'', ''/dl/g9/missing.glb'')]
        example_base example_manifest w1 = (Inr (), w2)" "files w2 = files w1"
      "exports (log w2) = exports (log w1)"
    by blast
  with r1 f1 show ?thesis
    by blast
qed

end
